theory Spec2Isabelle
  imports Complex_Main "HOL-Library.Word"
begin

unbundle bit_operations_syntax

section \<open>Protocol codec (protocol.js)\<close>

text \<open>
  JavaScript numbers that hold bytes, sensor ids, lengths and raw readings are modelled as
  \<open>nat\<close>; physical values (IEEE doubles in the source) are modelled as exact rationals.
  A byte array is a \<open>nat list\<close>; \<open>new Uint8Array(bytes)\<close> reduces every element
  modulo 256.
\<close>

definition CMD_HEADER :: "nat list" where
  "CMD_HEADER = [0x47, 0x14]"

definition RSP_HEADER :: "nat list" where
  "RSP_HEADER = [0x2E, 0x69]"

definition CMD_GET_SENSOR_STATUS :: nat where "CMD_GET_SENSOR_STATUS = 0x10"
definition CMD_START_EXPERIMENT :: nat where "CMD_START_EXPERIMENT = 0x11"
definition CMD_START_LOGIN :: nat where "CMD_START_LOGIN = 0x22"
definition CMD_STOP_LOGIN :: nat where "CMD_STOP_LOGIN = 0x33"
definition CMD_GET_SENSOR_IDS :: nat where "CMD_GET_SENSOR_IDS = 0xAA"

definition RSP_ONLINE_DATA :: nat where "RSP_ONLINE_DATA = 0x81"
definition RSP_SENSOR_IDS :: nat where "RSP_SENSOR_IDS = 0x82"
definition RSP_DEVICE_STATUS :: nat where "RSP_DEVICE_STATUS = 0x83"
definition RSP_EXPERIMENT_DATA :: nat where "RSP_EXPERIMENT_DATA = 0x84"
definition RSP_CONFIG :: nat where "RSP_CONFIG = 0x85"

text \<open>\<open>FIXED_LENGTHS\<close>: the object with keys 0x82 and 0x83.\<close>

definition FIXED_LENGTHS :: "nat \<Rightarrow> nat option" where
  "FIXED_LENGTHS t =
     (if t = RSP_SENSOR_IDS then Some 21
      else if t = RSP_DEVICE_STATUS then Some 33
      else None)"

text \<open>\<open>NO_DATA_0x8000\<close>: sensors for which raw 0x8000 means "no data".\<close>

definition NO_DATA_0x8000 :: "nat set" where
  "NO_DATA_0x8000 = {2, 4, 6, 14, 15, 16, 17, 21, 23, 25, 26, 30, 31, 40, 41, 42}"

text \<open>\<open>calcChecksum\<close>: \<open>(256 - (sum % 256)) % 256\<close> over the summed bytes.\<close>

definition calcChecksum :: "nat list \<Rightarrow> nat" where
  "calcChecksum bytes = (256 - (sum_list bytes mod 256)) mod 256"

text \<open>\<open>verifyChecksum\<close>: \<open>(sum & 0xFF) === 0\<close>.\<close>

definition verifyChecksum :: "nat list \<Rightarrow> bool" where
  "verifyChecksum packet \<longleftrightarrow> (sum_list packet AND 0xFF) = 0"

definition Uint8Array :: "nat list \<Rightarrow> nat list" where
  "Uint8Array bytes = map (\<lambda>b. b mod 256) bytes"

definition buildCommand :: "nat \<Rightarrow> nat list" where
  "buildCommand code =
     (let bytes = CMD_HEADER @ [code]
      in Uint8Array (bytes @ [calcChecksum bytes]))"

definition buildCommandWithPayload :: "nat \<Rightarrow> nat list \<Rightarrow> nat list" where
  "buildCommandWithPayload code payload =
     (let bytes = CMD_HEADER @ [code] @ payload
      in Uint8Array (bytes @ [calcChecksum bytes]))"

definition buildStartExperiment :: "nat \<Rightarrow> nat \<Rightarrow> nat \<Rightarrow> nat \<Rightarrow> nat list" where
  "buildStartExperiment maskHi maskLo rateIdx countIdx =
     (let payload = [maskHi, maskLo, rateIdx, countIdx, 0, 0, 0, 0, 0, 0, 0, 0, 0]
      in buildCommandWithPayload CMD_START_EXPERIMENT payload)"

section \<open>Sensor catalog (sensors.js)\<close>

text \<open>
  A JavaScript number produced by a conversion is either a finite value or not
  (\<open>NaN\<close>, which is what arithmetic on an array element read out of range gives).
\<close>

datatype jsnum = Num rat | NaN

fun jadd :: "jsnum \<Rightarrow> jsnum \<Rightarrow> jsnum" where
  "jadd (Num a) (Num b) = Num (a + b)"
| "jadd _ _ = NaN"

fun jsub :: "jsnum \<Rightarrow> jsnum \<Rightarrow> jsnum" where
  "jsub (Num a) (Num b) = Num (a - b)"
| "jsub _ _ = NaN"

fun jmul :: "jsnum \<Rightarrow> jsnum \<Rightarrow> jsnum" where
  "jmul (Num a) (Num b) = Num (a * b)"
| "jmul _ _ = NaN"

text \<open>Comparisons with \<open>undefined\<close> or \<open>NaN\<close> are false.\<close>

fun jgt :: "jsnum \<Rightarrow> jsnum \<Rightarrow> bool" where
  "jgt (Num a) (Num b) \<longleftrightarrow> a > b"
| "jgt _ _ \<longleftrightarrow> False"

fun jlt :: "jsnum \<Rightarrow> jsnum \<Rightarrow> bool" where
  "jlt (Num a) (Num b) \<longleftrightarrow> a < b"
| "jlt _ _ \<longleftrightarrow> False"

text \<open>
  \<open>t[i]\<close> on a numeric table: the element, or \<open>undefined\<close> (here \<open>NaN\<close>, which it
  becomes in arithmetic) when the index is negative or past the end.
\<close>

definition elemAt :: "rat list \<Rightarrow> int \<Rightarrow> jsnum" where
  "elemAt t i = (if 0 \<le> i \<and> i < int (length t) then Num (t ! nat i) else NaN)"

text \<open>\<open>mb\<close>: linear interpolation between two ranges.\<close>

definition mb :: "rat \<Rightarrow> rat \<Rightarrow> rat \<Rightarrow> rat \<Rightarrow> rat \<Rightarrow> jsnum" where
  "mb r rMin rMax vMin vMax =
     (if rMax - rMin = 0 then NaN
      else Num ((r - rMin) / (rMax - rMin) * (vMax - vMin) + vMin))"

definition lightTable :: "rat list" where
  "lightTable =
    [0, 0, 54 / 100000,
     3714, 2, 215 / 100000,
     7427, 10, 269 / 100000,
     11141, 20, 2154 / 100000,
     14855, 100, 2693 / 100000,
     18568, 200, 21542 / 100000,
     22282, 1000, 26928 / 100000,
     25996, 2000, 2154 / 1000,
     29709, 10000, 2693 / 1000,
     33423, 20000, 18849 / 1000,
     35280]"

text \<open>\<open>while (raw > table[i]) i += 3\<close>\<close>

function lightScan :: "rat list \<Rightarrow> rat \<Rightarrow> nat \<Rightarrow> nat" where
  "lightScan t raw i = (if jgt (Num raw) (elemAt t (int i)) then lightScan t raw (i + 3) else i)"
  by pat_completeness auto
termination
  by (relation "measure (\<lambda>(t, raw, i). length t - i)")
     (auto simp: elemAt_def split: if_splits)

definition convertLight :: "nat \<Rightarrow> jsnum" where
  "convertLight raw =
     (if raw = 0 \<or> raw = 65535 then Num 0
      else
        let table = lightTable;
            i = lightScan table (of_nat raw) 0;
            i = (if i \<noteq> 0 then i - 3 else i)
        in jadd (jmul (jsub (Num (of_nat raw)) (elemAt table (int i))) (elemAt table (int i + 2)))
                (elemAt table (int i + 1)))"

definition extTempTable :: "rat list" where
  "extTempTable =
    [62587, -40, 56201 / 10000000, 61698, -35, 46082 / 10000000, 60613, -30, 38338 / 10000000,
     59309, -25, 32394 / 10000000, 57765, -20, 27826 / 10000000, 55968, -15, 24331 / 10000000,
     53913, -10, 2168 / 1000000, 51607, -5, 19704 / 10000000, 49069, 0, 18274 / 10000000,
     46333, 5, 1731 / 1000000, 43445, 10, 16739 / 10000000, 40458, 15, 16514 / 10000000,
     37430, 20, 16621 / 10000000, 34422, 25, 17029 / 10000000, 31486, 30, 17738 / 10000000,
     28667, 35, 18773 / 10000000, 26003, 40, 20116 / 10000000, 23518, 45, 21819 / 10000000,
     21226, 50, 23894 / 10000000, 19134, 55, 26435 / 10000000, 17242, 60, 29314 / 10000000,
     15537, 65, 32898 / 10000000, 14017, 70, 36839 / 10000000, 12659, 75, 41677 / 10000000,
     11460, 80, 46932 / 10000000, 10394, 85, 53328 / 10000000, 9457, 90, 60505 / 10000000,
     8630, 95, 68394 / 10000000, 7899, 100, 78301 / 10000000, 7261, 105, 88086 / 10000000,
     6693, 110, 101603 / 10000000, 6201, 115, 114695 / 10000000, 5765, 120, 128549 / 10000000,
     5376]"

text \<open>\<open>while (t[i * 3] > raw) i++\<close>\<close>

function extTempScan :: "rat list \<Rightarrow> rat \<Rightarrow> nat \<Rightarrow> nat" where
  "extTempScan t raw i =
     (if jgt (elemAt t (int i * 3)) (Num raw) then extTempScan t raw (i + 1) else i)"
  by pat_completeness auto
termination
  by (relation "measure (\<lambda>(t, raw, i). length t - i * 3)")
     (auto simp: elemAt_def split: if_splits)

definition convertExtTemp :: "nat \<Rightarrow> jsnum" where
  "convertExtTemp raw =
     (let t = extTempTable; r = Num (of_nat raw)
      in if jgt r (elemAt t 0) then elemAt t 1
         else if jlt r (elemAt t (int (length t) - 1)) then elemAt t (int (length t) - 4)
         else
           let i = extTempScan t (of_nat raw) 0;
               idx = (int i - 1) * 3
           in jadd (elemAt t (idx + 1)) (jmul (jsub (elemAt t idx) r) (elemAt t (idx + 2))))"

definition signed16 :: "nat \<Rightarrow> rat" where
  "signed16 r = (if r > 32767 then of_nat r - 65536 else of_nat r)"

text \<open>
  A sensor descriptor. The display name and unit are not modelled; \<open>convert\<close> is
  \<open>None\<close> for the descriptor whose \<open>convert\<close> is \<open>null\<close> (GPS). A conversion attempt
  either returns a number or throws.
\<close>

datatype 'a attempt = Returns 'a | Throws

record sensor =
  dec :: nat
  bytes :: nat
  factor :: rat
  convert :: "(nat \<Rightarrow> jsnum attempt) option"

definition mkSensor :: "nat \<Rightarrow> rat \<Rightarrow> (nat \<Rightarrow> jsnum) \<Rightarrow> sensor" where
  "mkSensor d f c = \<lparr>dec = d, bytes = 2, factor = f, convert = Some (\<lambda>r. Returns (c r))\<rparr>"

definition SENSORS_table :: "(nat \<times> sensor) list" where
  "SENSORS_table =
    [(1, mkSensor 2 100 (\<lambda>r. Num (max 0 ((of_nat r - 21845) * 458 * 150 / 1000000 / 100)))),
     (2, mkSensor 2 100 (\<lambda>r. Num (of_nat r / 1000))),
     (4, mkSensor 1 10 (\<lambda>r. mb (of_nat r) 5000 11500 500 1150)),
     (5, mkSensor 1 10 (\<lambda>r. mb (of_nat r) 5157 32657 (-170) 380)),
     (6, mkSensor 1 10 (\<lambda>r. mb (of_nat r) 0 1000 0 100)),
     (7, \<lparr>dec = 0, bytes = 12, factor = 1, convert = None\<rparr>),
     (10, mkSensor 1 10 (\<lambda>r. Num (of_nat r / 10))),
     (11, mkSensor 1 10 (\<lambda>r. Num (of_nat r / 10))),
     (13, mkSensor 1 10 (\<lambda>r. convertExtTemp r)),
     (15, mkSensor 1 10 (\<lambda>r. jmul (mb (of_nat r) 0 1000 0 100) (Num (1 / 10)))),
     (16, mkSensor 1 10 (\<lambda>r. jmul (mb (of_nat r) 0 1000 0 100) (Num (1 / 10)))),
     (17, mkSensor 1 10 (\<lambda>r. jmul (mb (of_nat r) 0 1000 0 100) (Num (1 / 10)))),
     (20, mkSensor 0 1 (\<lambda>r. convertLight r)),
     (21, mkSensor 1 10 (\<lambda>r. mb (of_nat r) 540 960 54 96)),
     (22, mkSensor 0 1 (\<lambda>r. Num (if r > 240 then 0 else of_nat r))),
     (23, mkSensor 0 1 (\<lambda>r. Num (if r > 240 then 0 else of_nat r))),
     (24, mkSensor 5 10000 (\<lambda>r. Num (of_nat r * (4578754578754579 / 100000000000000000000)))),
     (25, mkSensor 3 1000 (\<lambda>r. mb (of_nat r) 400 10000 (4 / 10) 10)),
     (26, mkSensor 1 10 (\<lambda>r. mb (of_nat r) 0 3000 0 300)),
     (27, mkSensor 3 1000 (\<lambda>r. mb (of_nat r) 15527 50009 (-5) 5)),
     (28, mkSensor 3 1000 (\<lambda>r. mb (of_nat r) 14318 51218 (-1) 1)),
     (29, mkSensor 1 10
        (\<lambda>r. Num ((min 56848 (max 12288 (of_nat r)) - 12288) * 224 / 10000 / 10))),
     (30, mkSensor 1 10 (\<lambda>r. Num (signed16 r / 10))),
     (31, mkSensor 1 10 (\<lambda>r. Num (of_nat r / 10))),
     (32, mkSensor 3 1000 (\<lambda>r. Num (of_nat r * 92 / 10000 / 100))),
     (33, mkSensor 3 1000 (\<lambda>r. mb (of_nat r) 0 65535 0 (33 / 10))),
     (34, mkSensor 0 1 (\<lambda>r. mb (of_nat r) 15163 50373 (-500) 500)),
     (36, mkSensor 3 1000 (\<lambda>r. Num (of_nat r * (2442 / 10000000)))),
     (37, mkSensor 3 1000 (\<lambda>r. Num (of_nat r * (2442 / 10000000)))),
     (38, mkSensor 3 1000 (\<lambda>r. Num (of_nat r * (2442 / 10000000)))),
     (39, mkSensor 3 1000 (\<lambda>r. Num (of_nat r * 92 / 10000 / 100))),
     (40, mkSensor 2 100 (\<lambda>r. mb (of_nat r) 0 1400 0 14)),
     (41, mkSensor 1 10 (\<lambda>r. mb (of_nat r) 0 2000 0 20)),
     (42, mkSensor 1 10 (\<lambda>r. Num (signed16 r / 10))),
     (47, mkSensor 2 100 (\<lambda>r. Num (of_nat r / 100))),
     (49, mkSensor 3 1000 (\<lambda>r. Num ((of_nat r - 32768) * 1084 / 10000 / 100))),
     (50, mkSensor 4 10000 (\<lambda>r. Num (of_nat r * (1 / 2) / 28558)))]"

definition SENSORS :: "nat \<Rightarrow> sensor option" where
  "SENSORS = map_of SENSORS_table"




text \<open>
  \<open>decodeGPSCoord\<close> on four bytes (each below 256, so two hex digits): degrees are the
  first byte, minutes times 1000 the next two bytes big-endian, the hemisphere the last.
  The \<open>dms\<close> text is kept as its three ingredients.
\<close>

record gps_coord =
  decimal :: rat
  dms :: "nat \<times> nat \<times> char"

definition decodeGPSCoord :: "nat \<Rightarrow> nat \<Rightarrow> nat \<Rightarrow> nat \<Rightarrow> gps_coord" where
  "decodeGPSCoord b0 b1 b2 b3 =
     (let deg = b0;
          minRaw = b1 * 256 + b2;
          minutes = of_nat minRaw / 1000;
          dirHex = b3;
          isPositive = (dirHex = 0x4e \<or> dirHex = 0x45 \<or> dirHex = 0x00);
          decDeg = of_nat deg + minutes / 60
      in \<lparr>decimal = (if isPositive then decDeg else - decDeg),
          dms = (deg, minRaw,
                 if dirHex = 0x4e then CHR ''N'' else if dirHex = 0x53 then CHR ''S''
                 else if dirHex = 0x45 then CHR ''E'' else if dirHex = 0x57 then CHR ''W''
                 else CHR ''?'')\<rparr>)"

section \<open>Packet parser (parser.js)\<close>

text \<open>
  A reading record \<open>{raw, value, noData}\<close>; \<open>value\<close> is \<open>None\<close> for \<open>null\<close>. The GPS
  entry carries the extra fields \<open>lat\<close>, \<open>lon\<close>, \<open>vel\<close>, \<open>ang\<close>, absent otherwise.
\<close>

record reading =
  raw :: nat
  "value" :: "rat option"
  noData :: bool
  lat :: "gps_coord option"
  lon :: "gps_coord option"
  vel :: "rat option"
  ang :: "rat option"

text \<open>
  \<open>_convertRaw(sid, raw, sensor)\<close>; \<open>sensor\<close> is \<open>SENSORS[sid]\<close>, \<open>None\<close> when the
  catalog has no such id. A conversion that throws, or whose result is not finite, leaves
  \<open>value\<close> null.
\<close>

definition convertRaw :: "nat \<Rightarrow> nat \<Rightarrow> sensor option \<Rightarrow> reading" where
  "convertRaw sid r sens =
     (let isNoData = (r = 0xFFFF) \<or> (r = 0x8000 \<and> sid \<in> NO_DATA_0x8000);
          v = (if \<not> isNoData then
                 (case sens of
                    None \<Rightarrow> None
                  | Some s \<Rightarrow>
                      (case convert s of
                         None \<Rightarrow> None
                       | Some c \<Rightarrow>
                           (case c r of
                              Returns (Num x) \<Rightarrow> Some x
                            | Returns NaN \<Rightarrow> None
                            | Throws \<Rightarrow> None)))
               else None)
      in \<lparr>raw = r, value = v, noData = isNoData,
          lat = None, lon = None, vel = None, ang = None\<rparr>)"

text \<open>
  The \<open>values\<close> object of a sample: an association list from sensor id to reading;
  \<open>values[sid] = x\<close> replaces the entry of an id already present.
\<close>

type_synonym sample = "(nat \<times> reading) list"

fun assign :: "nat \<Rightarrow> reading \<Rightarrow> sample \<Rightarrow> sample" where
  "assign k v [] = [(k, v)]"
| "assign k v ((k', v') # rest) =
     (if k' = k then (k, v) # rest else (k', v') # assign k v rest)"

text \<open>The decoded device status of a 0x83 packet (texts kept as their bytes).\<close>

record status =
  subType :: nat
  model :: nat
  firmware :: "nat \<times> nat"
  active :: bool
  sensorMask :: nat
  rateIdx :: nat
  countIdx :: nat
  date :: "nat \<times> nat \<times> nat"
  time :: "nat \<times> nat \<times> nat"
  sensorCount :: nat

text \<open>
  Log lines are kept as the template that produced them with its parameters; the level
  (\<open>'warn'\<close>, \<open>'rx'\<close>, \<open>'info'\<close>, \<open>'err'\<close>, \<open>'tx'\<close>) is a string.
\<close>

datatype log_msg =
    BadChecksumResync nat nat
  | UnknownType nat nat
  | SensorIDsLog "nat list"
  | SensorNamesLog "nat list"
  | StatusLog status
  | DataSummaryLog nat sample

text \<open>
  What the parser hands to its callbacks, in order: \<open>onSensorIds\<close>, \<open>onStatus\<close>,
  \<open>onData\<close> (the values, the \<open>_counter\<close> key of experiment data, the packet count) and
  \<open>onLog\<close>.
\<close>

datatype event =
    SensorIdsEvent "nat list"
  | StatusEvent status
  | DataEvent sample "nat option" nat
  | LogEvent string log_msg

record parser =
  buffer :: "nat list"
  sensorIds :: "nat list"
  packetCount :: nat
  emitted :: "event list"

definition new_parser :: parser where
  "new_parser = \<lparr>buffer = [], sensorIds = [], packetCount = 0, emitted = []\<rparr>"

definition emit :: "event \<Rightarrow> parser \<Rightarrow> parser" where
  "emit e p = p\<lparr>emitted := emitted p @ [e]\<rparr>"

definition plog :: "string \<Rightarrow> log_msg \<Rightarrow> parser \<Rightarrow> parser" where
  "plog level msg p = emit (LogEvent level msg) p"

text \<open>\<open>_parseSensorIds\<close>: the nonzero bytes of \<open>pkt[3 .. length - 2]\<close>.\<close>

definition parseSensorIds :: "nat list \<Rightarrow> parser \<Rightarrow> parser" where
  "parseSensorIds pkt p =
     (let ids = filter (\<lambda>b. b \<noteq> 0) (take (length pkt - 1 - 3) (drop 3 pkt));
          p = p\<lparr>sensorIds := ids\<rparr>;
          p = plog ''rx'' (SensorIDsLog ids) p;
          p = plog ''info'' (SensorNamesLog ids) p
      in emit (SensorIdsEvent ids) p)"

text \<open>\<open>_parseStatus\<close>, reached with the 33 bytes of a status packet.\<close>

definition parseStatus :: "nat list \<Rightarrow> parser \<Rightarrow> parser" where
  "parseStatus pkt p =
     (let st = \<lparr>subType = pkt ! 3,
                model = pkt ! 4,
                firmware = (pkt ! 5, pkt ! 6),
                active = (pkt ! 7 = 0x01),
                sensorMask = push_bit 8 (pkt ! 9) OR pkt ! 10,
                rateIdx = pkt ! 11,
                countIdx = pkt ! 12,
                date = (pkt ! 13, pkt ! 14, pkt ! 15),
                time = (pkt ! 16, pkt ! 17, pkt ! 18),
                sensorCount = pkt ! 29\<rparr>;
          p = plog ''rx'' (StatusLog st) p
      in emit (StatusEvent st) p)"

text \<open>\<open>_emitData\<close>: a summary log for the first three packets and every tenth, then \<open>onData\<close>.\<close>

definition emitData :: "sample \<Rightarrow> nat option \<Rightarrow> parser \<Rightarrow> parser" where
  "emitData vals counter p =
     (let p = (if packetCount p \<le> 3 \<or> packetCount p mod 10 = 0
               then plog ''rx'' (DataSummaryLog (packetCount p) vals) p else p)
      in emit (DataEvent vals counter (packetCount p)) p)"

definition gpsReading ::
  "gps_coord \<Rightarrow> gps_coord \<Rightarrow> rat option \<Rightarrow> rat option \<Rightarrow> reading" where
  "gpsReading la lo v a =
     \<lparr>raw = 0, value = Some 0, noData = False,
      lat = Some la, lon = Some lo, vel = v, ang = a\<rparr>"

text \<open>
  The loop of \<open>_parseOnlineData\<close> over the cached sensor ids: GPS (id 7) takes 8 bytes,
  every other sensor 2; the loop breaks when the payload is exhausted.
\<close>

fun onlineLoop :: "nat list \<Rightarrow> nat list \<Rightarrow> nat \<Rightarrow> sample \<Rightarrow> sample" where
  "onlineLoop pkt [] offset vals = vals"
| "onlineLoop pkt (sid # rest) offset vals =
     (if sid = 7 then
        (if offset + 8 > length pkt - 1 then vals
         else
           let la = decodeGPSCoord (pkt ! offset) (pkt ! (offset + 1))
                      (pkt ! (offset + 2)) (pkt ! (offset + 3));
               lo = decodeGPSCoord (pkt ! (offset + 4)) (pkt ! (offset + 5))
                      (pkt ! (offset + 6)) (pkt ! (offset + 7))
           in onlineLoop pkt rest (offset + 8) (assign 7 (gpsReading la lo None None) vals))
      else if offset + 2 > length pkt - 1 then vals
      else
        let r = push_bit 8 (pkt ! offset) OR pkt ! (offset + 1)
        in onlineLoop pkt rest (offset + 2) (assign sid (convertRaw sid r (SENSORS sid)) vals))"

definition parseOnlineData :: "nat list \<Rightarrow> parser \<Rightarrow> parser" where
  "parseOnlineData pkt p =
     (if sensorIds p = [] then p
      else
        let vals = onlineLoop pkt (sensorIds p) 4 [];
            p = p\<lparr>packetCount := packetCount p + 1\<rparr>
        in emitData vals None p)"

definition inactiveReading :: reading where
  "inactiveReading =
     \<lparr>raw = 0xFFFF, value = None, noData = True,
      lat = None, lon = None, vel = None, ang = None\<rparr>"

text \<open>
  The loop of \<open>_parseExperimentData\<close>: \<open>bitIdx\<close> runs over the cached ids; an id whose
  msk bit is clear is emitted as no-data without consuming bytes; GPS takes 12 bytes.
\<close>

definition isActiveBit :: "nat \<Rightarrow> nat \<Rightarrow> bool" where
  "isActiveBit msk bitIdx \<longleftrightarrow> drop_bit (bitIdx mod 32) msk AND 1 \<noteq> 0"

fun experimentLoop ::
  "nat list \<Rightarrow> nat \<Rightarrow> nat list \<Rightarrow> nat \<Rightarrow> nat \<Rightarrow> sample \<Rightarrow> sample" where
  "experimentLoop pkt msk [] bitIdx offset vals = vals"
| "experimentLoop pkt msk (sid # rest) bitIdx offset vals =
     (let isActive = isActiveBit msk bitIdx
      in if \<not> isActive then
           experimentLoop pkt msk rest (bitIdx + 1) offset (assign sid inactiveReading vals)
         else if sid = 7 then
           (if offset + 12 > length pkt - 1 then vals
            else
              let la = decodeGPSCoord (pkt ! offset) (pkt ! (offset + 1))
                         (pkt ! (offset + 2)) (pkt ! (offset + 3));
                  lo = decodeGPSCoord (pkt ! (offset + 4)) (pkt ! (offset + 5))
                         (pkt ! (offset + 6)) (pkt ! (offset + 7));
                  v = push_bit 8 (pkt ! (offset + 8)) OR pkt ! (offset + 9);
                  a = push_bit 8 (pkt ! (offset + 10)) OR pkt ! (offset + 11)
              in experimentLoop pkt msk rest (bitIdx + 1) (offset + 12)
                   (assign 7 (gpsReading la lo (Some (of_nat v / 10)) (Some (of_nat a / 10)))
                      vals))
         else if offset + 2 > length pkt - 1 then vals
         else
           let r = push_bit 8 (pkt ! offset) OR pkt ! (offset + 1)
           in experimentLoop pkt msk rest (bitIdx + 1) (offset + 2)
                (assign sid (convertRaw sid r (SENSORS sid)) vals))"

text \<open>A byte read that may lie past the end of the packet (\<open>undefined\<close>).\<close>

definition byteAt :: "nat list \<Rightarrow> nat \<Rightarrow> nat option" where
  "byteAt pkt i = (if i < length pkt then Some (pkt ! i) else None)"

text \<open>In a bit operation \<open>undefined\<close> counts as 0.\<close>

definition toInt :: "nat option \<Rightarrow> nat" where
  "toInt b = (case b of None \<Rightarrow> 0 | Some v \<Rightarrow> v)"

definition parseExperimentData :: "nat list \<Rightarrow> parser \<Rightarrow> parser" where
  "parseExperimentData pkt p =
     (if sensorIds p = [] then p
      else
        let msk = push_bit 8 (toInt (byteAt pkt 4)) OR toInt (byteAt pkt 5);
            counter = byteAt pkt 7;
            vals = experimentLoop pkt msk (sensorIds p) 0 8 [];
            p = p\<lparr>packetCount := packetCount p + 1\<rparr>
        in emitData vals counter p)"

definition handlePacket :: "nat \<Rightarrow> nat list \<Rightarrow> parser \<Rightarrow> parser" where
  "handlePacket type pkt p =
     (if type = RSP_SENSOR_IDS then parseSensorIds pkt p
      else if type = RSP_DEVICE_STATUS then parseStatus pkt p
      else if type = RSP_ONLINE_DATA then parseOnlineData pkt p
      else if type = RSP_EXPERIMENT_DATA then parseExperimentData pkt p
      else plog ''rx'' (UnknownType type (length pkt)) p)"

text \<open>\<open>_getPacketLength\<close>: \<open>None\<close> for \<open>null\<close>.\<close>

definition getPacketLength :: "nat \<Rightarrow> nat list \<Rightarrow> nat option" where
  "getPacketLength type buf =
     (case FIXED_LENGTHS type of
        Some n \<Rightarrow> Some n
      | None \<Rightarrow>
          if type = RSP_ONLINE_DATA \<or> type = RSP_EXPERIMENT_DATA \<or> type = RSP_CONFIG
          then (if length buf \<ge> 4 then Some (buf ! 3) else None)
          else None)"

text \<open>The header search: the first index \<open>i\<close> with \<open>buf[i] = 0x2E\<close> and \<open>buf[i+1] = 0x69\<close>.\<close>

fun findHeader :: "nat list \<Rightarrow> nat option" where
  "findHeader (a # b # rest) =
     (if a = 0x2E \<and> b = 0x69 then Some 0 else map_option Suc (findHeader (b # rest)))"
| "findHeader _ = None"

text \<open>
  The \<open>while\<close> loop of \<open>_processBuffer\<close>. \<open>safety\<close> is the counter before the test
  \<open>safety++ < 50\<close>; inside the body it has been incremented.
\<close>

function processLoop :: "nat \<Rightarrow> parser \<Rightarrow> parser" where
  "processLoop safety p =
     (if length (buffer p) \<ge> 4 \<and> safety < 50 then
        (case findHeader (buffer p) of
           None \<Rightarrow>
             (if length (buffer p) > 200
              then p\<lparr>buffer := drop (length (buffer p) - 2) (buffer p)\<rparr>
              else p)
         | Some hdr \<Rightarrow>
             (let buf = drop hdr (buffer p)
              in if length buf < 4 then p\<lparr>buffer := buf\<rparr>
                 else
                   let type = buf ! 2
                   in (case getPacketLength type buf of
                         None \<Rightarrow> processLoop (safety + 1) (p\<lparr>buffer := drop 1 buf\<rparr>)
                       | Some len \<Rightarrow>
                           if len < 4 \<or> len > 800
                           then processLoop (safety + 1) (p\<lparr>buffer := drop 1 buf\<rparr>)
                           else if length buf < len then p\<lparr>buffer := buf\<rparr>
                           else
                             let pkt = take len buf; rest = drop len buf
                             in if verifyChecksum pkt
                                then processLoop (safety + 1)
                                       (handlePacket type pkt (p\<lparr>buffer := rest\<rparr>))
                                else
                                  let p = plog ''warn''
                                            (BadChecksumResync type (length pkt))
                                            (p\<lparr>buffer := rest\<rparr>);
                                      buf = drop 1 pkt @ rest;
                                      buf = (if safety + 1 > 30 then drop 10 buf else buf)
                                  in processLoop (safety + 1) (p\<lparr>buffer := buf\<rparr>))))
      else p)"
  by pat_completeness auto
termination
  by (relation "measure (\<lambda>(safety, p). 50 - safety)") auto

definition processBuffer :: "parser \<Rightarrow> parser" where
  "processBuffer p = processLoop 0 p"

definition feed :: "nat list \<Rightarrow> parser \<Rightarrow> parser" where
  "feed bs p = processBuffer (p\<lparr>buffer := buffer p @ bs\<rparr>)"

definition reset :: "parser \<Rightarrow> parser" where
  "reset p = p\<lparr>buffer := [], sensorIds := [], packetCount := 0\<rparr>"

section \<open>Wire formatter (formatter.js)\<close>








section \<open>Logger session (connection.js)\<close>

datatype conn_state = DISCONNECTED | CONNECTING | CONNECTED | STREAMING

text \<open>The name a command is logged under; the experiment command's name carries the mask.\<close>

datatype cmd_name =
    Label string
  | StartExperimentLabel int string string

datatype conn_msg =
    NoSensors
  | NoSensorsDetected
  | ModeNormal nat
  | Excluded "nat list"
  | ModeFast nat
  | Tx "nat list" cmd_name
  | TxError
  | ExperimentFinished
  | Restarting

text \<open>
  What a session does that is visible outside it, in order: a packet handed to the port's
  writer and accepted, a log line, and a state change reported to \<open>onStateChange\<close>.
\<close>

datatype conn_event =
    Wrote "nat list"
  | Logged string conn_msg
  | StateChanged conn_state

text \<open>
  The session. \<open>port\<close> tells whether \<open>this.port\<close> is set; \<open>writes\<close> holds the outcomes
  of the coming \<open>writer.write\<close> calls (\<open>True\<close>: the write resolves, \<open>False\<close>: it
  throws; an exhausted list means the write resolves); \<open>trace\<close> collects the events.
  Settling delays (\<open>_sleep\<close>) take no part in the model, and a start procedure runs to
  its end without another operation of the session in between.
\<close>

record conn =
  port :: bool
  state :: conn_state
  parser :: parser
  streamMode :: string
  deviceStatus :: "status option"
  writes :: "bool list"
  trace :: "conn_event list"

definition new_conn :: conn where
  "new_conn =
     \<lparr>port = False, state = DISCONNECTED, parser = new_parser, streamMode = ''normal'',
      deviceStatus = None, writes = [], trace = []\<rparr>"

definition isConnected :: "conn \<Rightarrow> bool" where
  "isConnected c \<longleftrightarrow> state c \<noteq> DISCONNECTED"

definition isStreaming :: "conn \<Rightarrow> bool" where
  "isStreaming c \<longleftrightarrow> state c = STREAMING"

definition clog :: "string \<Rightarrow> conn_msg \<Rightarrow> conn \<Rightarrow> conn" where
  "clog level msg c = c\<lparr>trace := trace c @ [Logged level msg]\<rparr>"

definition setState :: "conn_state \<Rightarrow> conn \<Rightarrow> conn" where
  "setState newState c =
     (if state c = newState then c
      else c\<lparr>state := newState, trace := trace c @ [StateChanged newState]\<rparr>)"

text \<open>\<open>_sendRaw\<close>: nothing without a port or when disconnected; a failed write is logged.\<close>

definition sendRaw :: "nat list \<Rightarrow> cmd_name \<Rightarrow> conn \<Rightarrow> conn" where
  "sendRaw pkt name c =
     (if \<not> port c \<or> \<not> isConnected c then c
      else
        (case writes c of
           [] \<Rightarrow> clog ''tx'' (Tx pkt name) (c\<lparr>trace := trace c @ [Wrote pkt]\<rparr>)
         | ok # later \<Rightarrow>
             if ok
             then clog ''tx'' (Tx pkt name) (c\<lparr>writes := later, trace := trace c @ [Wrote pkt]\<rparr>)
             else clog ''err'' TxError (c\<lparr>writes := later\<rparr>)))"

definition sendCommand :: "nat \<Rightarrow> cmd_name \<Rightarrow> conn \<Rightarrow> conn" where
  "sendCommand code name c = sendRaw (buildCommand code) name c"

definition handshake :: "conn \<Rightarrow> conn" where
  "handshake c =
     (let c = sendCommand CMD_STOP_LOGIN (Label ''StopLogin (handshake)'') c;
          c = sendCommand CMD_GET_SENSOR_IDS (Label ''GetSensorIDs (handshake)'') c;
          c = sendCommand CMD_GET_SENSOR_STATUS (Label ''GetStatus (handshake)'') c
      in c)"

text \<open>
  \<open>(1 << n) - 1\<close>: the shift works on 32-bit integers with the count taken modulo 32.
  \<open>(mask >> 8) & 0xFF\<close> and \<open>mask & 0xFF\<close> are bits 8 to 15 and 0 to 7 of the mask.
\<close>

definition allSensorsMask :: "nat \<Rightarrow> int" where
  "allSensorsMask n = sint (push_bit (n mod 32) (1 :: 32 word)) - 1"

definition maskHiOf :: "int \<Rightarrow> nat" where
  "maskHiOf m = nat (drop_bit 8 m AND 0xFF)"

definition maskLoOf :: "int \<Rightarrow> nat" where
  "maskLoOf m = nat (m AND 0xFF)"

definition resetPacketCount :: "conn \<Rightarrow> conn" where
  "resetPacketCount c = c\<lparr>parser := (parser c)\<lparr>packetCount := 0\<rparr>\<rparr>"

definition startNormal :: "conn \<Rightarrow> conn" where
  "startNormal c =
     (if \<not> isConnected c \<or> isStreaming c then c
      else
        let c = c\<lparr>streamMode := ''normal''\<rparr>;
            ids = sensorIds (parser c)
        in if length ids = 0 then clog ''err'' NoSensors c
           else
             let m = allSensorsMask (length ids);
                 maskHi = maskHiOf m;
                 maskLo = maskLoOf m;
                 c = clog ''info'' (ModeNormal (length ids)) c;
                 c = handshake c;
                 pkt = buildStartExperiment maskHi maskLo 0x02 0x03;
                 c = sendRaw pkt (StartExperimentLabel m ''1Hz'' ''10000'') c;
                 c = sendCommand CMD_START_LOGIN (Label ''StartLogin (Normal 1Hz)'') c;
                 c = setState STREAMING c
             in resetPacketCount c)"

text \<open>\<open>(mask >> i) & 1\<close> on the 32-bit value of the mask.\<close>

definition maskBit :: "int \<Rightarrow> nat \<Rightarrow> bool" where
  "maskBit m i \<longleftrightarrow> bit (word_of_int m :: 32 word) (i mod 32)"

definition filterByIndex :: "(nat \<Rightarrow> bool) \<Rightarrow> nat list \<Rightarrow> nat list" where
  "filterByIndex P ids = map fst (filter (\<lambda>(sid, i). P i) (zip ids [0 ..< length ids]))"

text \<open>
  \<open>startFast\<close>. \<open>buildMaskForRate\<close> is imported from sensors.js, which does not define
  it; it is the parameter \<open>bm\<close>.
\<close>

definition startFast :: "(nat list \<Rightarrow> nat \<Rightarrow> int) \<Rightarrow> conn \<Rightarrow> conn" where
  "startFast bm c =
     (if \<not> isConnected c \<or> isStreaming c then c
      else
        let c = c\<lparr>streamMode := ''fast''\<rparr>;
            ids = sensorIds (parser c)
        in if length ids = 0 then clog ''err'' NoSensors c
           else
             let m = bm ids 10;
                 maskHi = maskHiOf m;
                 maskLo = maskLoOf m;
                 excluded = filterByIndex (\<lambda>i. \<not> maskBit m i) ids;
                 c = (if length excluded > 0 then clog ''info'' (Excluded excluded) c else c);
                 activeIds = filterByIndex (\<lambda>i. maskBit m i) ids;
                 c = clog ''info'' (ModeFast (length activeIds)) c;
                 c = handshake c;
                 pkt = buildStartExperiment maskHi maskLo 0x03 0x03;
                 c = sendRaw pkt (StartExperimentLabel m ''10Hz'' ''10000'') c;
                 c = sendCommand CMD_START_LOGIN (Label ''StartLogin (Fast 10Hz)'') c;
                 c = setState STREAMING c
             in resetPacketCount c)"

definition stopStreaming :: "conn \<Rightarrow> conn" where
  "stopStreaming c =
     (if \<not> isStreaming c then c
      else
        let c = sendCommand CMD_STOP_LOGIN (Label ''StopLogin'') c
        in setState CONNECTED c)"

subsection \<open>The earlier revision of the session (without handshake)\<close>

text \<open>
  The repository also holds an earlier connection.js, whose start operations are
  \<open>startOnline\<close> ("just sends StartLogin") and \<open>startExperiment\<close>.
\<close>

definition startOnline :: "conn \<Rightarrow> conn" where
  "startOnline c =
     (if \<not> isConnected c \<or> isStreaming c then c
      else
        let c = c\<lparr>streamMode := ''online''\<rparr>;
            c = sendCommand CMD_START_LOGIN (Label ''StartLogin (Online)'') c;
            c = setState STREAMING c
        in resetPacketCount c)"

definition startExperiment :: "conn \<Rightarrow> conn" where
  "startExperiment c =
     (if \<not> isConnected c \<or> isStreaming c then c
      else
        let c = c\<lparr>streamMode := ''experiment''\<rparr>;
            numSensors = length (sensorIds (parser c))
        in if numSensors = 0 then clog ''err'' NoSensorsDetected c
           else
             let m = allSensorsMask numSensors;
                 maskHi = maskHiOf m;
                 maskLo = maskLoOf m;
                 pkt = buildStartExperiment maskHi maskLo 0x04 0x03;
                 c = sendRaw pkt (StartExperimentLabel m ''25Hz'' ''10000'') c;
                 c = sendCommand CMD_START_LOGIN (Label ''StartLogin (Experiment)'') c;
                 c = setState STREAMING c
             in resetPacketCount c)"

text \<open>The packets written to the port, and the events other than log lines.\<close>

definition written :: "conn \<Rightarrow> nat list list" where
  "written c = concat (map (\<lambda>e. case e of Wrote pkt \<Rightarrow> [pkt] | _ \<Rightarrow> []) (trace c))"

definition actions :: "conn_event list \<Rightarrow> conn_event list" where
  "actions es = filter (\<lambda>e. case e of Logged _ _ \<Rightarrow> False | _ \<Rightarrow> True) es"

section \<open>Bridge orchestrator (bridge.js) and the Beacon's state (ble-uart.js)\<close>

datatype ble_state = BLE_DISCONNECTED | BLE_CONNECTING | BLE_CONNECTED

datatype bridge_msg =
    LabdiscState conn_state
  | MicrobitState ble_state
  | AutoStart
  | AutoStop

text \<open>
  The orchestrator owns the session (\<open>labdisc\<close>) and the Beacon handle, of which only
  the state matters here (\<open>microbit\<close>). \<open>blog\<close> collects its own log lines.
\<close>

record bridge =
  labdisc :: conn
  microbit :: ble_state
  mode :: string
  autoStarted :: bool
  uartSentCount :: nat
  blog :: "(string \<times> bridge_msg) list"

definition new_bridge :: bridge where
  "new_bridge =
     \<lparr>labdisc = new_conn, microbit = BLE_DISCONNECTED, mode = ''normal'',
      autoStarted = False, uartSentCount = 0, blog = []\<rparr>"

definition blogm :: "string \<Rightarrow> bridge_msg \<Rightarrow> bridge \<Rightarrow> bridge" where
  "blogm level msg b = b\<lparr>blog := blog b @ [(level, msg)]\<rparr>"

text \<open>
  \<open>_checkAutoStream\<close> calls \<open>this._startStreaming()\<close> and
  \<open>this.labdisc.stopStreaming()\<close> without awaiting them. The model returns them as
  the calls it has issued, to be carried out next.
\<close>

datatype call = StartStreaming | StopStreaming

definition checkAutoStream :: "bridge \<Rightarrow> bridge \<times> call list" where
  "checkAutoStream b =
     (let labReady = (state (labdisc b) = CONNECTED);
          microReady = (microbit b = BLE_CONNECTED);
          streaming = isStreaming (labdisc b);
          (b, calls) =
            (if labReady \<and> microReady \<and> \<not> streaming
                \<and> length (sensorIds (parser (labdisc b))) > 0
             then ((blogm ''info'' AutoStart b)\<lparr>autoStarted := True\<rparr>, [StartStreaming])
             else (b, []))
      in if \<not> microReady \<and> streaming \<and> autoStarted b
         then ((blogm ''info'' AutoStop b)\<lparr>autoStarted := False\<rparr>, calls @ [StopStreaming])
         else (b, calls))"

text \<open>The handlers wired to the state changes of the session and of the Beacon.\<close>

definition labdisc_onStateChange :: "bridge \<Rightarrow> bridge \<times> call list" where
  "labdisc_onStateChange b =
     checkAutoStream (blogm ''info'' (LabdiscState (state (labdisc b))) b)"

definition microbit_onStateChange :: "bridge \<Rightarrow> bridge \<times> call list" where
  "microbit_onStateChange b =
     checkAutoStream (blogm ''info'' (MicrobitState (microbit b)) b)"

text \<open>
  A session operation run inside the orchestrator: when it changes the session's state,
  \<open>_setState\<close> invokes the handler given as \<open>onChange\<close>. Each operation used here changes
  the state at most once, as its last step but for resetting the packet count.
\<close>

definition withLabdisc ::
  "(bridge \<Rightarrow> bridge \<times> call list) \<Rightarrow> (conn \<Rightarrow> conn) \<Rightarrow> bridge \<Rightarrow> bridge \<times> call list" where
  "withLabdisc onChange f b =
     (let c = f (labdisc b); b' = b\<lparr>labdisc := c\<rparr>
      in if state c \<noteq> state (labdisc b) then onChange b' else (b', []))"

text \<open>\<open>_startStreaming\<close>; \<open>bm\<close> stands for the missing \<open>buildMaskForRate\<close>.\<close>

definition startStreaming ::
  "(nat list \<Rightarrow> nat \<Rightarrow> int) \<Rightarrow> bridge \<Rightarrow> bridge \<times> call list" where
  "startStreaming bm b =
     (let (b, calls) =
            (if mode b = ''fast''
             then withLabdisc labdisc_onStateChange (startFast bm) b
             else withLabdisc labdisc_onStateChange startNormal b)
      in (b\<lparr>uartSentCount := 0\<rparr>, calls))"

definition perform ::
  "(nat list \<Rightarrow> nat \<Rightarrow> int) \<Rightarrow> call \<Rightarrow> bridge \<Rightarrow> bridge \<times> call list" where
  "perform bm k b =
     (case k of
        StartStreaming \<Rightarrow> startStreaming bm b
      | StopStreaming \<Rightarrow> withLabdisc labdisc_onStateChange stopStreaming b)"

text \<open>
  Carrying out the issued calls, and those they issue in turn, until none is left;
  \<open>None\<close> when the fuel \<open>n\<close> does not suffice.
\<close>

fun runCalls ::
  "(nat list \<Rightarrow> nat \<Rightarrow> int) \<Rightarrow> nat \<Rightarrow> bridge \<times> call list \<Rightarrow> bridge option" where
  "runCalls bm n (b, []) = Some b"
| "runCalls bm 0 (b, k # ks) = None"
| "runCalls bm (Suc n) (b, k # ks) =
     (let (b', new) = perform bm k b in runCalls bm n (b', ks @ new))"

text \<open>\<open>manualStartStream\<close> and \<open>manualStopStream\<close> (the Stream button).\<close>

definition manualStartStream ::
  "(nat list \<Rightarrow> nat \<Rightarrow> int) \<Rightarrow> bridge \<Rightarrow> bridge \<times> call list" where
  "manualStartStream bm b =
     (if \<not> isConnected (labdisc b) \<or> isStreaming (labdisc b) then (b, [])
      else startStreaming bm (b\<lparr>autoStarted := False\<rparr>))"

definition manualStopStream :: "bridge \<Rightarrow> bridge \<times> call list" where
  "manualStopStream b =
     (if \<not> isStreaming (labdisc b) then (b, [])
      else withLabdisc labdisc_onStateChange stopStreaming (b\<lparr>autoStarted := False\<rparr>))"

text \<open>
  \<open>MicrobitBLE._setState\<close> as seen by the orchestrator. The Beacon disconnects through
  \<open>_setState(DISCONNECTED)\<close>, both in the \<open>gattserverdisconnected\<close> listener and in
  \<open>disconnect()\<close>.
\<close>

definition microbit_setState :: "ble_state \<Rightarrow> bridge \<Rightarrow> bridge \<times> call list" where
  "microbit_setState newState b =
     (if microbit b = newState then (b, [])
      else microbit_onStateChange (b\<lparr>microbit := newState\<rparr>))"

subsection \<open>The earlier revision of the orchestrator (js/bridge.js, js/app.js)\<close>

text \<open>
  The earlier bridge.js has no \<open>_autoStarted\<close> flag and starts through
  \<open>startOnline\<close> and \<open>startExperiment\<close>; its Stream button (\<open>handleManualStream\<close> of
  js/app.js) calls the session directly.
\<close>

definition checkAutoStream_js :: "bridge \<Rightarrow> bridge \<times> call list" where
  "checkAutoStream_js b =
     (let labReady = (state (labdisc b) = CONNECTED);
          microReady = (microbit b = BLE_CONNECTED);
          streaming = isStreaming (labdisc b);
          (b, calls) =
            (if labReady \<and> microReady \<and> \<not> streaming
                \<and> length (sensorIds (parser (labdisc b))) > 0
             then (blogm ''info'' AutoStart b, [StartStreaming])
             else (b, []))
      in if \<not> microReady \<and> streaming
         then (blogm ''info'' AutoStop b, calls @ [StopStreaming])
         else (b, calls))"

definition labdisc_onStateChange_js :: "bridge \<Rightarrow> bridge \<times> call list" where
  "labdisc_onStateChange_js b =
     checkAutoStream_js (blogm ''info'' (LabdiscState (state (labdisc b))) b)"

definition microbit_onStateChange_js :: "bridge \<Rightarrow> bridge \<times> call list" where
  "microbit_onStateChange_js b =
     checkAutoStream_js (blogm ''info'' (MicrobitState (microbit b)) b)"

definition startStreaming_js :: "bridge \<Rightarrow> bridge \<times> call list" where
  "startStreaming_js b =
     (let (b, calls) =
            (if mode b = ''fast''
             then withLabdisc labdisc_onStateChange_js startExperiment b
             else withLabdisc labdisc_onStateChange_js startOnline b)
      in (b\<lparr>uartSentCount := 0\<rparr>, calls))"

definition perform_js :: "call \<Rightarrow> bridge \<Rightarrow> bridge \<times> call list" where
  "perform_js k b =
     (case k of
        StartStreaming \<Rightarrow> startStreaming_js b
      | StopStreaming \<Rightarrow> withLabdisc labdisc_onStateChange_js stopStreaming b)"

fun runCalls_js :: "nat \<Rightarrow> bridge \<times> call list \<Rightarrow> bridge option" where
  "runCalls_js n (b, []) = Some b"
| "runCalls_js 0 (b, k # ks) = None"
| "runCalls_js (Suc n) (b, k # ks) =
     (let (b', new) = perform_js k b in runCalls_js n (b', ks @ new))"

definition handleManualStream_js :: "bridge \<Rightarrow> bridge \<times> call list" where
  "handleManualStream_js b =
     (if isStreaming (labdisc b) then withLabdisc labdisc_onStateChange_js stopStreaming b
      else if isConnected (labdisc b) then
        (let (b, calls) =
               (if mode b = ''fast''
                then withLabdisc labdisc_onStateChange_js startExperiment b
                else withLabdisc labdisc_onStateChange_js startOnline b)
         in (b\<lparr>uartSentCount := 0\<rparr>, calls))
      else (b, []))"

definition microbit_setState_js :: "ble_state \<Rightarrow> bridge \<Rightarrow> bridge \<times> call list" where
  "microbit_setState_js newState b =
     (if microbit b = newState then (b, [])
      else microbit_onStateChange_js (b\<lparr>microbit := newState\<rparr>))"

section \<open>Notions used to state the properties\<close>

text \<open>
  The finite result of \<open>sensor.convert(raw)\<close>, when the sensor exists, has a converter,
  the converter returns and the number is finite.
\<close>

definition finiteConversion :: "sensor option \<Rightarrow> nat \<Rightarrow> rat option" where
  "finiteConversion sens r =
     (case sens of
        None \<Rightarrow> None
      | Some s \<Rightarrow>
          (case convert s of
             None \<Rightarrow> None
           | Some c \<Rightarrow> (case c r of Returns (Num x) \<Rightarrow> Some x | _ \<Rightarrow> None)))"

text \<open>
  The external-temperature table as rows (raw at temperature, temperature, local slope),
  and the interpolation rule in the words of the specification: scan for the first row
  whose raw is at most the input and interpolate backward from the prior row.
\<close>

fun rowsOf :: "rat list \<Rightarrow> (rat \<times> rat \<times> rat) list" where
  "rowsOf (a # t # s # rest) = (a, t, s) # rowsOf rest"
| "rowsOf _ = []"

fun priorRow ::
  "(rat \<times> rat \<times> rat) list \<Rightarrow> rat \<Rightarrow> (rat \<times> rat \<times> rat) option
     \<Rightarrow> (rat \<times> rat \<times> rat) option" where
  "priorRow [] r prev = prev"
| "priorRow ((a, t, s) # rest) r prev =
     (if a \<le> r then prev else priorRow rest r (Some (a, t, s)))"

definition extTempInterpolation_spec :: "nat \<Rightarrow> jsnum" where
  "extTempInterpolation_spec r =
     (case priorRow (rowsOf extTempTable) (of_nat r) None of
        None \<Rightarrow> NaN
      | Some (a, t, s) \<Rightarrow> Num (t + (a - of_nat r) * s))"

text \<open>Auxiliary: the flat table of a list of rows, and the scan as a walk over the flat table.\<close>

fun flatRows :: "(rat \<times> rat \<times> rat) list \<Rightarrow> rat list" where
  "flatRows [] = []"
| "flatRows ((a, t, s) # rest) = a # t # s # flatRows rest"

fun scanRows :: "rat list \<Rightarrow> rat \<Rightarrow> nat" where
  "scanRows [] r = 0"
| "scanRows (a # rest) r = (if a > r then Suc (scanRows (drop 2 rest) r) else 0)"




text \<open>The next \<open>k\<close> writes to the port succeed.\<close>

definition writesOk :: "nat \<Rightarrow> conn \<Rightarrow> bool" where
  "writesOk k c \<longleftrightarrow> (\<forall>w \<in> set (take k (writes c)). w)"

text \<open>
  Example states: a connected session with an open port, no pending write failure and
  the cached id list \<open>[30]\<close>, and the same session with no id cached.
\<close>

definition readyConn :: conn where
  "readyConn =
     new_conn\<lparr>port := True, state := CONNECTED, parser := new_parser\<lparr>sensorIds := [30]\<rparr>\<rparr>"

definition freshConn :: conn where
  "freshConn = new_conn\<lparr>port := True, state := CONNECTED\<rparr>"

text \<open>
  Example orchestrators: both devices connected with the session idle, and the same with
  the session streaming.
\<close>

definition pairedBridge :: bridge where
  "pairedBridge = new_bridge\<lparr>labdisc := readyConn, microbit := BLE_CONNECTED\<rparr>"

definition streamingBridge :: bridge where
  "streamingBridge = pairedBridge\<lparr>labdisc := readyConn\<lparr>state := STREAMING\<rparr>\<rparr>"

text \<open>Feeding a stream one byte at a time: one \<open>feed\<close> call per byte.\<close>

fun feedEach :: "nat list \<Rightarrow> parser \<Rightarrow> parser" where
  "feedEach [] p = p"
| "feedEach (b # bs) p = feedEach bs (feed [b] p)"

text \<open>The events other than log lines: sensor-id, status and sample events.\<close>

definition packetEvents :: "event list \<Rightarrow> event list" where
  "packetEvents es = filter (\<lambda>e. case e of LogEvent _ _ \<Rightarrow> False | _ \<Rightarrow> True) es"

text \<open>
  A valid packet: the response header, a type whose expected length (from the table, or
  from the declared-length byte) is the packet's length, within the framer's bounds, and
  a checksum that verifies.
\<close>

definition validPacket :: "nat list \<Rightarrow> bool" where
  "validPacket q \<longleftrightarrow>
     4 \<le> length q \<and> length q \<le> 800 \<and> take 2 q = RSP_HEADER
     \<and> getPacketLength (q ! 2) q = Some (length q) \<and> verifyChecksum q"

text \<open>The first index of a packet of type \<open>t\<close> after those the framer reads to find its length.\<close>

definition payloadStart :: "nat \<Rightarrow> nat" where
  "payloadStart t = (case FIXED_LENGTHS t of Some n \<Rightarrow> 3 | None \<Rightarrow> 4)"

text \<open>
  Example input: a sensor-id list naming sensor 30, an online-data packet for it, and
  fifty stray response headers.
\<close>

definition idsPacket :: "nat list" where
  "idsPacket = [0x2E, 0x69, 0x82, 30, 0, 0, 0, 0, 0, 0, 0, 0, 0, 0, 0, 0, 0, 0, 0, 0, 0xC9]"

definition onlinePacket :: "nat list" where
  "onlinePacket = [0x2E, 0x69, 0x81, 7, 0x01, 0x07, 0xD9]"

definition junkHeaders :: "nat list" where
  "junkHeaders = concat (replicate 50 [0x2E, 0x69])"

section \<open>Checksum round trip\<close>

lemma and_255_mod: "(n::nat) AND 0xFF = n mod 256"
proof -
  have "n AND mask 8 = n mod 2 ^ 8"
    by (simp only: take_bit_eq_mask [symmetric] take_bit_eq_mod)
  then show ?thesis by (simp add: mask_eq_exp_minus_1)
qed

lemma verifyChecksum_mod: "verifyChecksum p \<longleftrightarrow> sum_list p mod 256 = 0"
  by (simp add: verifyChecksum_def and_255_mod)

lemma sum_list_Uint8Array: "sum_list (Uint8Array xs) mod 256 = sum_list xs mod 256"
proof (induction xs)
  case Nil
  then show ?case by (simp add: Uint8Array_def)
next
  case (Cons x xs)
  have "sum_list (Uint8Array (x # xs)) mod 256
        = (x mod 256 + sum_list (Uint8Array xs) mod 256) mod 256"
    by (simp add: Uint8Array_def mod_simps)
  also have "\<dots> = (x mod 256 + sum_list xs mod 256) mod 256"
    using Cons.IH by simp
  also have "\<dots> = sum_list (x # xs) mod 256"
    by (simp add: mod_simps)
  finally show ?case .
qed

lemma calcChecksum_closes: "(sum_list bs + calcChecksum bs) mod 256 = 0"
proof -
  define n where "n = sum_list bs"
  define s where "s = n mod 256"
  have s: "s < 256" by (simp add: s_def)
  have n: "n = 256 * (n div 256) + s" by (simp add: s_def)
  show ?thesis
  proof (cases "s = 0")
    case True
    then show ?thesis
      by (simp add: calcChecksum_def n_def [symmetric] s_def [symmetric])
  next
    case False
    with s have c: "(256 - s) mod 256 = 256 - s" by simp
    have "n + (256 - s) = 256 * (n div 256) + s + (256 - s)"
      using n by simp
    also have "\<dots> = 256 * (n div 256 + 1)"
      using s by simp
    finally have "(n + (256 - s)) mod 256 = 0"
      by simp
    with c show ?thesis
      by (simp add: calcChecksum_def n_def [symmetric] s_def [symmetric])
  qed
qed

lemma verify_appended_checksum: "verifyChecksum (Uint8Array (bs @ [calcChecksum bs]))"
  by (simp add: verifyChecksum_mod sum_list_Uint8Array calcChecksum_closes)

text \<open>
  C5. Every byte sequence produced by a command builder (\<open>buildCommand\<close>,
  \<open>buildCommandWithPayload\<close>, \<open>buildStartExperiment\<close>) passes the checksum check: the
  sum of all its bytes, the appended checksum included, is 0 modulo 256. This holds for
  every command code and payload, in particular for bytes in 0..255.
\<close>

theorem builders_pass_checksum:
  "verifyChecksum (buildCommand code)
   \<and> verifyChecksum (buildCommandWithPayload code payload)
   \<and> verifyChecksum (buildStartExperiment hi lo ri ci)
   \<and> sum_list (buildCommand code) mod 256 = 0
   \<and> sum_list (buildCommandWithPayload code payload) mod 256 = 0
   \<and> sum_list (buildStartExperiment hi lo ri ci) mod 256 = 0"
proof -
  have a: "verifyChecksum (buildCommand code)" for code
    unfolding buildCommand_def Let_def by (rule verify_appended_checksum)
  have b: "verifyChecksum (buildCommandWithPayload code payload)" for code payload
    unfolding buildCommandWithPayload_def Let_def append_assoc [symmetric]
    by (rule verify_appended_checksum)
  have c: "verifyChecksum (buildStartExperiment hi lo ri ci)"
    unfolding buildStartExperiment_def Let_def by (rule b)
  from a b c show ?thesis
    by (simp add: verifyChecksum_mod)
qed

section \<open>External-temperature table\<close>

lemma convertExtTemp_above_first: "r > 62587 \<Longrightarrow> convertExtTemp r = Num (- 40)"
  by (simp add: convertExtTemp_def extTempTable_def elemAt_def Let_def)

lemma convertExtTemp_below_sentinel: "r < 5376 \<Longrightarrow> convertExtTemp r = Num 5765"
  by (simp add: convertExtTemp_def extTempTable_def elemAt_def Let_def)

lemma convertExtTemp_at_first_entry: "convertExtTemp 62587 = NaN"
  by (simp add: convertExtTemp_def extTempTable_def elemAt_def Let_def)

lemma convertExtTemp_inside_example:
  "convertExtTemp 62586 = Num (- 40 + (62587 - 62586) * (56201 / 10000000))"
  by (simp add: convertExtTemp_def extTempTable_def elemAt_def Let_def)

lemma elemAt_nat: "elemAt t (int n) = (if n < length t then Num (t ! n) else NaN)"
  by (simp add: elemAt_def)

lemma int_times3: "int i * 3 = int (i * 3)"
  by simp

lemma extTempScan_scanRows: "extTempScan t r i = i + scanRows (drop (i * 3) t) r"
proof (induction t r i rule: extTempScan.induct)
  case (1 t r i)
  show ?case
  proof (cases "jgt (elemAt t (int i * 3)) (Num r)")
    case True
    then have lt: "i * 3 < length t" and gt: "t ! (i * 3) > r"
      unfolding int_times3 elemAt_nat by (auto split: if_splits)
    have d: "drop (i * 3) t = t ! (i * 3) # drop (Suc (i * 3)) t"
      using lt by (simp add: Cons_nth_drop_Suc)
    have "extTempScan t r i = extTempScan t r (i + 1)"
      using True by (subst extTempScan.simps) simp
    also have "\<dots> = (i + 1) + scanRows (drop ((i + 1) * 3) t) r"
      using "1.IH" [OF True] .
    also have "\<dots> = i + scanRows (drop (i * 3) t) r"
    proof -
      have e: "2 + Suc (i * 3) = (i + 1) * 3" by simp
      have "scanRows (drop (i * 3) t) r = Suc (scanRows (drop 2 (drop (Suc (i * 3)) t)) r)"
        using gt by (simp only: d scanRows.simps if_True)
      also have "drop 2 (drop (Suc (i * 3)) t) = drop ((i + 1) * 3) t"
        by (simp only: drop_drop e)
      finally show ?thesis by simp
    qed
    finally show ?thesis .
  next
    case False
    then have "scanRows (drop (i * 3) t) r = 0"
      unfolding int_times3 elemAt_nat
      by (cases "i * 3 < length t") (auto simp: Cons_nth_drop_Suc [symmetric])
    moreover have "extTempScan t r i = i"
      using False by (subst extTempScan.simps) simp
    ultimately show ?thesis by simp
  qed
qed

lemma scanRows_flat:
  "sentinel \<le> r \<Longrightarrow>
   scanRows (flatRows rows @ [sentinel]) r = length (takeWhile (\<lambda>(a, t, s). a > r) rows)"
  by (induction rows) auto

lemma priorRow_takeWhile:
  "priorRow rows r prev =
     (let tw = takeWhile (\<lambda>(a, t, s). a > r) rows
      in if tw = [] then prev else Some (last tw))"
  by (induction rows r prev rule: priorRow.induct) (auto simp: Let_def)

lemma flatRows_nth:
  "j < length rows \<Longrightarrow>
   (flatRows rows @ ys) ! (j * 3) = fst (rows ! j)
   \<and> (flatRows rows @ ys) ! (j * 3 + 1) = fst (snd (rows ! j))
   \<and> (flatRows rows @ ys) ! (j * 3 + 2) = snd (snd (rows ! j))"
proof (induction rows arbitrary: j)
  case Nil
  then show ?case by simp
next
  case (Cons row rows)
  obtain a t s where row: "row = (a, t, s)" by (cases row)
  show ?case
  proof (cases j)
    case 0
    then show ?thesis by (simp add: row)
  next
    case (Suc k)
    with Cons.prems have "k < length rows" by simp
    from Cons.IH [OF this] Suc show ?thesis
      by (simp add: row)
  qed
qed

lemma length_flatRows: "length (flatRows rows) = 3 * length rows"
  by (induction rows) auto

lemma extTempTable_rows: "extTempTable = flatRows (rowsOf extTempTable) @ [5376]"
  by (simp add: extTempTable_def)

lemma convertExtTemp_inside:
  assumes "5376 \<le> r" "r \<le> 62587"
  shows "convertExtTemp r = extTempInterpolation_spec r"
proof -
  define rows where "rows = rowsOf extTempTable"
  define x :: rat where "x = of_nat r"
  define tw where "tw = takeWhile (\<lambda>(a, t, s). a > x) rows"
  define k where "k = length tw"
  have t: "extTempTable = flatRows rows @ [5376]"
    unfolding rows_def by (rule extTempTable_rows)
  have lr: "length rows = 33"
    by (simp add: rows_def extTempTable_def)
  have lt: "length extTempTable = 100"
    by (simp add: extTempTable_def)
  have x: "5376 \<le> x" "x \<le> 62587"
    using assms by (simp_all add: x_def)
  have k: "extTempScan extTempTable x 0 = k"
    unfolding extTempScan_scanRows
    using scanRows_flat [OF x(1), of rows] by (simp add: t k_def tw_def)
  have hi: "\<not> jgt (Num x) (elemAt extTempTable 0)"
    using x(2) by (simp add: elemAt_def extTempTable_def)
  have lo: "\<not> jlt (Num x) (elemAt extTempTable (int (length extTempTable) - 1))"
    using x(1) by (simp add: elemAt_def extTempTable_def)
  have code: "convertExtTemp r =
      jadd (elemAt extTempTable ((int k - 1) * 3 + 1))
        (jmul (jsub (elemAt extTempTable ((int k - 1) * 3)) (Num x))
           (elemAt extTempTable ((int k - 1) * 3 + 2)))"
    using hi lo k by (simp add: convertExtTemp_def Let_def x_def)
  have spec: "extTempInterpolation_spec r =
      (case (if tw = [] then None else Some (last tw)) of
         None \<Rightarrow> NaN
       | Some (a, t, s) \<Rightarrow> Num (t + (a - x) * s))"
    by (simp add: extTempInterpolation_spec_def priorRow_takeWhile Let_def
          rows_def [symmetric] x_def [symmetric] tw_def [symmetric])
  show ?thesis
  proof (cases k)
    case 0
    then have "tw = []" by (simp add: k_def)
    with 0 show ?thesis
      unfolding code spec by (simp add: elemAt_def)
  next
    case (Suc j)
    have kl: "k \<le> length rows"
      unfolding k_def tw_def by (rule length_takeWhile_le)
    with Suc have j: "j < length rows" by simp
    have twk: "tw = take k rows"
      unfolding k_def tw_def by (rule takeWhile_eq_take)
    have ne: "tw \<noteq> []" using Suc by (auto simp: k_def)
    have lastj: "last tw = rows ! j"
      using Suc j ne twk by (simp add: last_conv_nth)
    obtain a tt s where row: "rows ! j = (a, tt, s)" by (cases "rows ! j")
    have idx: "(int k - 1) * 3 = int (j * 3)"
      using Suc by simp
    have i1: "int (j * 3) + 1 = int (j * 3 + 1)" and i2: "int (j * 3) + 2 = int (j * 3 + 2)"
      by simp_all
    have inr: "j * 3 + 2 < length extTempTable"
      using j lr lt by simp
    from flatRows_nth [OF j, of "[5376]"] row
    have vals: "extTempTable ! (j * 3) = a" "extTempTable ! (j * 3 + 1) = tt"
      "extTempTable ! (j * 3 + 2) = s"
      by (simp_all add: t)
    have e0: "elemAt extTempTable (int (j * 3)) = Num a"
      using inr vals(1) by (simp only: elemAt_nat) simp
    have e1: "elemAt extTempTable (int (j * 3) + 1) = Num tt"
      unfolding i1 using inr vals(2) by (simp only: elemAt_nat) simp
    have e2: "elemAt extTempTable (int (j * 3) + 2) = Num s"
      unfolding i2 using inr vals(3) by (simp only: elemAt_nat) simp
    have sp: "extTempInterpolation_spec r = Num (tt + (a - x) * s)"
      unfolding spec using ne lastj row by simp
    show ?thesis
      unfolding code idx e0 e1 e2 sp by simp
  qed
qed

text \<open>
  C8. A raw value above the table's first raw entry (62587) returns the first
  temperature, -40 (\<open>convertExtTemp_above_first\<close>), and raw values from the lower limit
  5376 up to 62587 interpolate backward from the prior row (\<open>convertExtTemp_inside\<close>;
  at 62587 itself there is no prior row and the result is not a number). Below the lower
  limit the specification expects the last row's temperature, 120; \<open>convertExtTemp\<close>
  returns \<open>t[t.length - 4]\<close>, which is the last row's raw entry 5765, for instance at
  raw 5000.
\<close>

theorem convertExtTemp_below_table_is_5765: "convertExtTemp 5000 = Num 5765"
  by (simp add: convertExtTemp_def extTempTable_def elemAt_def Let_def)

section \<open>No-data sentinels of the generic 2-byte path\<close>

lemma convertRaw_noData:
  "noData (convertRaw sid r sens) \<longleftrightarrow> r = 0xFFFF \<or> (r = 0x8000 \<and> sid \<in> NO_DATA_0x8000)"
  by (simp add: convertRaw_def Let_def)

lemma convertRaw_value:
  "value (convertRaw sid r sens) =
     (if noData (convertRaw sid r sens) then None else finiteConversion sens r)"
  by (simp add: convertRaw_def finiteConversion_def Let_def
        split: option.splits attempt.splits jsnum.splits)

text \<open>
  C3. For every sensor id and raw value decoded through the generic 2-byte path, the
  reading has \<open>noData\<close> exactly when raw is 0xFFFF, or raw is 0x8000 and the id is in
  the reserved-0x8000 set; for an id outside that set raw 0x8000 is converted like any
  other value; \<open>value\<close> is null when \<open>noData\<close> holds, when the converter throws and when
  its result is not finite; a reading is produced in every case.
\<close>

theorem convertRaw_sentinel_law:
  "(noData (convertRaw sid r sens) \<longleftrightarrow> r = 0xFFFF \<or> (r = 0x8000 \<and> sid \<in> NO_DATA_0x8000))
   \<and> raw (convertRaw sid r sens) = r
   \<and> (noData (convertRaw sid r sens) \<longrightarrow> value (convertRaw sid r sens) = None)
   \<and> (\<not> noData (convertRaw sid r sens) \<longrightarrow>
        value (convertRaw sid r sens) = finiteConversion sens r)
   \<and> (sid \<notin> NO_DATA_0x8000 \<longrightarrow>
        \<not> noData (convertRaw sid 0x8000 sens)
        \<and> value (convertRaw sid 0x8000 sens) = finiteConversion sens 0x8000)
   \<and> (sens = Some s \<and> convert s = Some c \<and> (c r = Throws \<or> c r = Returns NaN) \<longrightarrow>
        value (convertRaw sid r sens) = None)"
proof -
  have "raw (convertRaw sid r sens) = r"
    by (simp add: convertRaw_def Let_def)
  moreover have "sens = Some s \<and> convert s = Some c \<and> (c r = Throws \<or> c r = Returns NaN)
      \<longrightarrow> value (convertRaw sid r sens) = None"
    by (auto simp: convertRaw_value finiteConversion_def)
  ultimately show ?thesis
    by (simp add: convertRaw_noData convertRaw_value)
qed

theorem convertRaw_sentinel_law_witness:
  "noData (convertRaw 30 0x8000 (SENSORS 30))
   \<and> value (convertRaw 30 0x8000 (SENSORS 30)) = None
   \<and> \<not> noData (convertRaw 1 0x8000 (SENSORS 1))
   \<and> value (convertRaw 1 0x8000 (SENSORS 1)) = finiteConversion (SENSORS 1) 0x8000
   \<and> finiteConversion (SENSORS 1) 0x8000 = Some (7504101 / 1000000)"
proof -
  have f: "finiteConversion (SENSORS 1) 0x8000 = Some (7504101 / 1000000)"
    by (simp add: finiteConversion_def SENSORS_def SENSORS_table_def mkSensor_def)
  have a: "30 \<in> NO_DATA_0x8000" and b: "1 \<notin> NO_DATA_0x8000"
    by (simp_all add: NO_DATA_0x8000_def)
  from convertRaw_sentinel_law [of 30 "0x8000" "SENSORS 30"]
       convertRaw_sentinel_law [of 1 "0x8000" "SENSORS 1"] a b f
  show ?thesis by simp
qed

section \<open>Wire line\<close>









section \<open>The GPS entry of a sample\<close>













section \<open>The start sequence of the session\<close>

lemma sendRaw_ok:
  assumes "port c" "isConnected c" "writesOk (Suc k) c"
  shows "sendRaw pkt name c
           = c\<lparr>writes := tl (writes c), trace := trace c @ [Wrote pkt, Logged ''tx'' (Tx pkt name)]\<rparr>"
    and "writesOk k (sendRaw pkt name c)"
  using assms
  by (auto simp: sendRaw_def writesOk_def clog_def split: list.splits dest: in_set_takeD)

lemma sendRaw_frame:
  "port (sendRaw pkt name c) = port c" "state (sendRaw pkt name c) = state c"
  "parser (sendRaw pkt name c) = parser c" "streamMode (sendRaw pkt name c) = streamMode c"
  "deviceStatus (sendRaw pkt name c) = deviceStatus c"
  by (auto simp: sendRaw_def clog_def split: list.splits)

lemma sendRaw_ok_trace:
  assumes "port c" "isConnected c" "writesOk (Suc k) c"
  shows "trace (sendRaw pkt name c) = trace c @ [Wrote pkt, Logged ''tx'' (Tx pkt name)]"
  using sendRaw_ok(1) [OF assms] by simp

lemma handshake_ok:
  assumes "port c" "isConnected c" "writesOk (Suc (Suc (Suc k))) c"
  shows "trace (handshake c) = trace c @
           [Wrote (buildCommand CMD_STOP_LOGIN),
            Logged ''tx'' (Tx (buildCommand CMD_STOP_LOGIN) (Label ''StopLogin (handshake)'')),
            Wrote (buildCommand CMD_GET_SENSOR_IDS),
            Logged ''tx'' (Tx (buildCommand CMD_GET_SENSOR_IDS) (Label ''GetSensorIDs (handshake)'')),
            Wrote (buildCommand CMD_GET_SENSOR_STATUS),
            Logged ''tx'' (Tx (buildCommand CMD_GET_SENSOR_STATUS) (Label ''GetStatus (handshake)''))]"
    and "writesOk k (handshake c)" and "port (handshake c)" and "state (handshake c) = state c"
    and "parser (handshake c) = parser c" and "streamMode (handshake c) = streamMode c"
proof -
  let ?c1 = "sendRaw (buildCommand CMD_STOP_LOGIN) (Label ''StopLogin (handshake)'') c"
  let ?c2 = "sendRaw (buildCommand CMD_GET_SENSOR_IDS) (Label ''GetSensorIDs (handshake)'') ?c1"
  let ?c3 = "sendRaw (buildCommand CMD_GET_SENSOR_STATUS) (Label ''GetStatus (handshake)'') ?c2"
  have h: "handshake c = ?c3" by (simp add: handshake_def sendCommand_def)
  have p1: "port ?c1" "isConnected ?c1" using assms by (simp_all add: sendRaw_frame isConnected_def)
  have w1: "writesOk (Suc (Suc k)) ?c1" by (rule sendRaw_ok(2) [OF assms])
  have p2: "port ?c2" "isConnected ?c2" using p1 by (simp_all add: sendRaw_frame isConnected_def)
  have w2: "writesOk (Suc k) ?c2" by (rule sendRaw_ok(2) [OF p1 w1])
  have w3: "writesOk k ?c3" by (rule sendRaw_ok(2) [OF p2 w2])
  show "trace (handshake c) = trace c @
           [Wrote (buildCommand CMD_STOP_LOGIN),
            Logged ''tx'' (Tx (buildCommand CMD_STOP_LOGIN) (Label ''StopLogin (handshake)'')),
            Wrote (buildCommand CMD_GET_SENSOR_IDS),
            Logged ''tx'' (Tx (buildCommand CMD_GET_SENSOR_IDS) (Label ''GetSensorIDs (handshake)'')),
            Wrote (buildCommand CMD_GET_SENSOR_STATUS),
            Logged ''tx'' (Tx (buildCommand CMD_GET_SENSOR_STATUS) (Label ''GetStatus (handshake)''))]"
    unfolding h
    by (simp add: sendRaw_ok_trace [OF p2 w2] sendRaw_ok_trace [OF p1 w1] sendRaw_ok_trace [OF assms])
  show "writesOk k (handshake c)" unfolding h by (rule w3)
  show "port (handshake c)" unfolding h using assms(1) by (simp add: sendRaw_frame)
  show "state (handshake c) = state c" unfolding h by (simp add: sendRaw_frame)
  show "parser (handshake c) = parser c" unfolding h by (simp add: sendRaw_frame)
  show "streamMode (handshake c) = streamMode c" unfolding h by (simp add: sendRaw_frame)
qed

lemma start_tail:
  fixes pkt n1 n2 c
  assumes "port c" "isConnected c" "\<not> isStreaming c" "writesOk (Suc (Suc k)) c"
  defines "c' \<equiv> resetPacketCount (setState STREAMING
                    (sendCommand CMD_START_LOGIN n2 (sendRaw pkt n1 c)))"
  shows "trace c' = trace c @
           [Wrote pkt, Logged ''tx'' (Tx pkt n1),
            Wrote (buildCommand CMD_START_LOGIN),
            Logged ''tx'' (Tx (buildCommand CMD_START_LOGIN) n2),
            StateChanged STREAMING]"
    and "state c' = STREAMING"
proof -
  let ?c1 = "sendRaw pkt n1 c"
  let ?c2 = "sendRaw (buildCommand CMD_START_LOGIN) n2 ?c1"
  have p1: "port ?c1" "isConnected ?c1" using assms(1,2) by (simp_all add: sendRaw_frame isConnected_def)
  have w1: "writesOk (Suc k) ?c1" by (rule sendRaw_ok(2) [OF assms(1,2,4)])
  have s2: "state ?c2 \<noteq> STREAMING" using assms(3) by (simp add: sendRaw_frame isStreaming_def)
  have t2: "trace ?c2 = trace c @ [Wrote pkt, Logged ''tx'' (Tx pkt n1),
            Wrote (buildCommand CMD_START_LOGIN),
            Logged ''tx'' (Tx (buildCommand CMD_START_LOGIN) n2)]"
    by (simp add: sendRaw_ok_trace [OF p1 w1] sendRaw_ok_trace [OF assms(1,2,4)])
  show "trace c' = trace c @
           [Wrote pkt, Logged ''tx'' (Tx pkt n1),
            Wrote (buildCommand CMD_START_LOGIN),
            Logged ''tx'' (Tx (buildCommand CMD_START_LOGIN) n2),
            StateChanged STREAMING]"
    using s2 t2 by (simp add: c'_def resetPacketCount_def setState_def sendCommand_def)
  show "state c' = STREAMING"
    by (simp add: c'_def resetPacketCount_def setState_def)
qed

lemma writesOk_upd [simp]:
  "writesOk k (c\<lparr>streamMode := m\<rparr>) = writesOk k c"
  "writesOk k (clog l msg c) = writesOk k c"
  by (simp_all add: writesOk_def clog_def)

lemma clog_frame [simp]:
  "port (clog l msg c) = port c" "state (clog l msg c) = state c"
  "parser (clog l msg c) = parser c" "streamMode (clog l msg c) = streamMode c"
  "trace (clog l msg c) = trace c @ [Logged l msg]"
  "isConnected (clog l msg c) = isConnected c" "isStreaming (clog l msg c) = isStreaming c"
  by (simp_all add: clog_def isConnected_def isStreaming_def)

lemma startNormal_ok:
  assumes "isConnected c" "\<not> isStreaming c" "port c" "sensorIds (parser c) \<noteq> []"
    "writesOk 5 c"
  shows "actions (drop (length (trace c)) (trace (startNormal c))) =
           [Wrote (buildCommand CMD_STOP_LOGIN),
            Wrote (buildCommand CMD_GET_SENSOR_IDS),
            Wrote (buildCommand CMD_GET_SENSOR_STATUS),
            Wrote (buildStartExperiment
                     (maskHiOf (allSensorsMask (length (sensorIds (parser c)))))
                     (maskLoOf (allSensorsMask (length (sensorIds (parser c))))) 0x02 0x03),
            Wrote (buildCommand CMD_START_LOGIN),
            StateChanged STREAMING]"
    and "take (length (trace c)) (trace (startNormal c)) = trace c"
    and "state (startNormal c) = STREAMING"
proof -
  let ?n = "length (sensorIds (parser c))"
  let ?c1 = "clog ''info'' (ModeNormal ?n) (c\<lparr>streamMode := ''normal''\<rparr>)"
  let ?c2 = "handshake ?c1"
  have five: "(5::nat) = Suc (Suc (Suc (Suc (Suc 0))))" by simp
  have pre1: "port ?c1" "isConnected ?c1" "writesOk (Suc (Suc (Suc (Suc (Suc 0))))) ?c1"
    using assms by (simp_all add: isConnected_def five)
  note hs = handshake_ok [OF pre1]
  have pre2: "port ?c2" "isConnected ?c2" "\<not> isStreaming ?c2" "writesOk (Suc (Suc 0)) ?c2"
    using hs assms by (simp_all add: isConnected_def isStreaming_def)
  note tl = start_tail [OF pre2]
  have unf: "startNormal c = resetPacketCount (setState STREAMING
      (sendCommand CMD_START_LOGIN (Label ''StartLogin (Normal 1Hz)'')
        (sendRaw (buildStartExperiment (maskHiOf (allSensorsMask ?n)) (maskLoOf (allSensorsMask ?n)) 0x02 0x03)
           (StartExperimentLabel (allSensorsMask ?n) ''1Hz'' ''10000'') ?c2)))"
    using assms by (simp add: startNormal_def Let_def)
  show "state (startNormal c) = STREAMING"
    unfolding unf by (rule tl(2))
  have tr: "trace (startNormal c) = trace c @
      [Logged ''info'' (ModeNormal ?n),
       Wrote (buildCommand CMD_STOP_LOGIN),
       Logged ''tx'' (Tx (buildCommand CMD_STOP_LOGIN) (Label ''StopLogin (handshake)'')),
       Wrote (buildCommand CMD_GET_SENSOR_IDS),
       Logged ''tx'' (Tx (buildCommand CMD_GET_SENSOR_IDS) (Label ''GetSensorIDs (handshake)'')),
       Wrote (buildCommand CMD_GET_SENSOR_STATUS),
       Logged ''tx'' (Tx (buildCommand CMD_GET_SENSOR_STATUS) (Label ''GetStatus (handshake)'')),
       Wrote (buildStartExperiment (maskHiOf (allSensorsMask ?n)) (maskLoOf (allSensorsMask ?n)) 0x02 0x03),
       Logged ''tx'' (Tx (buildStartExperiment (maskHiOf (allSensorsMask ?n)) (maskLoOf (allSensorsMask ?n)) 0x02 0x03)
          (StartExperimentLabel (allSensorsMask ?n) ''1Hz'' ''10000'')),
       Wrote (buildCommand CMD_START_LOGIN),
       Logged ''tx'' (Tx (buildCommand CMD_START_LOGIN) (Label ''StartLogin (Normal 1Hz)'')),
       StateChanged STREAMING]"
    unfolding unf tl(1) hs(1) by simp
  show "actions (drop (length (trace c)) (trace (startNormal c))) =
           [Wrote (buildCommand CMD_STOP_LOGIN),
            Wrote (buildCommand CMD_GET_SENSOR_IDS),
            Wrote (buildCommand CMD_GET_SENSOR_STATUS),
            Wrote (buildStartExperiment
                     (maskHiOf (allSensorsMask (length (sensorIds (parser c)))))
                     (maskLoOf (allSensorsMask (length (sensorIds (parser c))))) 0x02 0x03),
            Wrote (buildCommand CMD_START_LOGIN),
            StateChanged STREAMING]"
    unfolding tr by (simp add: actions_def)
  show "take (length (trace c)) (trace (startNormal c)) = trace c"
    unfolding tr by simp
qed

lemma startFast_ok:
  assumes "isConnected c" "\<not> isStreaming c" "port c" "sensorIds (parser c) \<noteq> []"
    "writesOk 5 c"
  shows "actions (drop (length (trace c)) (trace (startFast bm c))) =
           [Wrote (buildCommand CMD_STOP_LOGIN),
            Wrote (buildCommand CMD_GET_SENSOR_IDS),
            Wrote (buildCommand CMD_GET_SENSOR_STATUS),
            Wrote (buildStartExperiment
                     (maskHiOf (bm (sensorIds (parser c)) 10))
                     (maskLoOf (bm (sensorIds (parser c)) 10)) 0x03 0x03),
            Wrote (buildCommand CMD_START_LOGIN),
            StateChanged STREAMING]"
    and "take (length (trace c)) (trace (startFast bm c)) = trace c"
    and "state (startFast bm c) = STREAMING"
proof -
  let ?ids = "sensorIds (parser c)"
  let ?m = "bm ?ids 10"
  let ?ex = "filterByIndex (\<lambda>i. \<not> maskBit ?m i) ?ids"
  let ?c0 = "c\<lparr>streamMode := ''fast''\<rparr>"
  let ?c1 = "clog ''info'' (ModeFast (length (filterByIndex (\<lambda>i. maskBit ?m i) ?ids)))
               (if length ?ex > 0 then clog ''info'' (Excluded ?ex) ?c0 else ?c0)"
  let ?c2 = "handshake ?c1"
  have five: "(5::nat) = Suc (Suc (Suc (Suc (Suc 0))))" by simp
  have pre1: "port ?c1" "isConnected ?c1" "writesOk (Suc (Suc (Suc (Suc (Suc 0))))) ?c1"
    using assms by (simp_all add: isConnected_def five)
  note hs = handshake_ok [OF pre1]
  have pre2: "port ?c2" "isConnected ?c2" "\<not> isStreaming ?c2" "writesOk (Suc (Suc 0)) ?c2"
    using hs assms by (simp_all add: isConnected_def isStreaming_def)
  note tl = start_tail [OF pre2]
  have unf: "startFast bm c = resetPacketCount (setState STREAMING
      (sendCommand CMD_START_LOGIN (Label ''StartLogin (Fast 10Hz)'')
        (sendRaw (buildStartExperiment (maskHiOf ?m) (maskLoOf ?m) 0x03 0x03)
           (StartExperimentLabel ?m ''10Hz'' ''10000'') ?c2)))"
    using assms by (simp add: startFast_def Let_def)
  show "state (startFast bm c) = STREAMING"
    unfolding unf by (rule tl(2))
  have t1: "\<exists>logs. trace ?c1 = trace c @ logs \<and> actions logs = []"
    by (simp add: actions_def)
  then obtain logs where logs: "trace ?c1 = trace c @ logs" "actions logs = []" by blast
  have tr: "trace (startFast bm c) = trace c @ logs @
      [Wrote (buildCommand CMD_STOP_LOGIN),
       Logged ''tx'' (Tx (buildCommand CMD_STOP_LOGIN) (Label ''StopLogin (handshake)'')),
       Wrote (buildCommand CMD_GET_SENSOR_IDS),
       Logged ''tx'' (Tx (buildCommand CMD_GET_SENSOR_IDS) (Label ''GetSensorIDs (handshake)'')),
       Wrote (buildCommand CMD_GET_SENSOR_STATUS),
       Logged ''tx'' (Tx (buildCommand CMD_GET_SENSOR_STATUS) (Label ''GetStatus (handshake)'')),
       Wrote (buildStartExperiment (maskHiOf ?m) (maskLoOf ?m) 0x03 0x03),
       Logged ''tx'' (Tx (buildStartExperiment (maskHiOf ?m) (maskLoOf ?m) 0x03 0x03)
          (StartExperimentLabel ?m ''10Hz'' ''10000'')),
       Wrote (buildCommand CMD_START_LOGIN),
       Logged ''tx'' (Tx (buildCommand CMD_START_LOGIN) (Label ''StartLogin (Fast 10Hz)'')),
       StateChanged STREAMING]"
    unfolding unf tl(1) hs(1) logs(1) by simp
  have al: "actions (logs @ xs) = actions xs" for xs
    using logs(2) by (simp add: actions_def)
  show "actions (drop (length (trace c)) (trace (startFast bm c))) =
           [Wrote (buildCommand CMD_STOP_LOGIN),
            Wrote (buildCommand CMD_GET_SENSOR_IDS),
            Wrote (buildCommand CMD_GET_SENSOR_STATUS),
            Wrote (buildStartExperiment
                     (maskHiOf (bm (sensorIds (parser c)) 10))
                     (maskLoOf (bm (sensorIds (parser c)) 10)) 0x03 0x03),
            Wrote (buildCommand CMD_START_LOGIN),
            StateChanged STREAMING]"
    unfolding tr by (simp add: al) (simp add: actions_def)
  show "take (length (trace c)) (trace (startFast bm c)) = trace c"
    unfolding tr by simp
qed

text \<open>
  C1. As stated the property fails: in the earlier revision of the session \<open>startOnline\<close>
  transmits the start-login command alone, and in the handshake revision a write that
  throws is logged and skipped while the start goes on into Streaming.
\<close>

theorem start_sequence_counterexample:
  "state (startOnline readyConn) = STREAMING
   \<and> written (startOnline readyConn) = [buildCommand CMD_START_LOGIN]
   \<and> state (startNormal (readyConn\<lparr>writes := [False]\<rparr>)) = STREAMING
   \<and> written (startNormal (readyConn\<lparr>writes := [False]\<rparr>)) =
        [buildCommand CMD_GET_SENSOR_IDS, buildCommand CMD_GET_SENSOR_STATUS,
         buildStartExperiment 0 1 0x02 0x03, buildCommand CMD_START_LOGIN]"
  by code_simp

text \<open>
  C1, amended. Every streaming start through \<open>startNormal\<close> or \<open>startFast\<close>, on a
  connected, not yet streaming session with an open port and a known sensor-id list, whose
  five writes succeed, transmits exactly stop-login, get-sensor-ids, get-status,
  configure-experiment (0x11 with the mode's bitmask, rate index and count index 3) and
  start-login, in that order, and only then enters the Streaming state.
\<close>

theorem start_sequence:
  "isConnected c \<and> \<not> isStreaming c \<and> port c \<and> sensorIds (parser c) \<noteq> [] \<and> writesOk 5 c
   \<longrightarrow>
     actions (drop (length (trace c)) (trace (startNormal c))) =
       [Wrote (buildCommand CMD_STOP_LOGIN),
        Wrote (buildCommand CMD_GET_SENSOR_IDS),
        Wrote (buildCommand CMD_GET_SENSOR_STATUS),
        Wrote (buildStartExperiment
                 (maskHiOf (allSensorsMask (length (sensorIds (parser c)))))
                 (maskLoOf (allSensorsMask (length (sensorIds (parser c))))) 0x02 0x03),
        Wrote (buildCommand CMD_START_LOGIN),
        StateChanged STREAMING]
     \<and> take (length (trace c)) (trace (startNormal c)) = trace c
     \<and> state (startNormal c) = STREAMING
     \<and> actions (drop (length (trace c)) (trace (startFast bm c))) =
       [Wrote (buildCommand CMD_STOP_LOGIN),
        Wrote (buildCommand CMD_GET_SENSOR_IDS),
        Wrote (buildCommand CMD_GET_SENSOR_STATUS),
        Wrote (buildStartExperiment
                 (maskHiOf (bm (sensorIds (parser c)) 10))
                 (maskLoOf (bm (sensorIds (parser c)) 10)) 0x03 0x03),
        Wrote (buildCommand CMD_START_LOGIN),
        StateChanged STREAMING]
     \<and> take (length (trace c)) (trace (startFast bm c)) = trace c
     \<and> state (startFast bm c) = STREAMING"
  using startNormal_ok [of c] startFast_ok [of c bm] by blast

theorem start_sequence_witness:
  "actions (drop (length (trace readyConn)) (trace (startNormal readyConn))) =
       [Wrote (buildCommand CMD_STOP_LOGIN),
        Wrote (buildCommand CMD_GET_SENSOR_IDS),
        Wrote (buildCommand CMD_GET_SENSOR_STATUS),
        Wrote (buildStartExperiment
                 (maskHiOf (allSensorsMask (length (sensorIds (parser readyConn)))))
                 (maskLoOf (allSensorsMask (length (sensorIds (parser readyConn))))) 0x02 0x03),
        Wrote (buildCommand CMD_START_LOGIN),
        StateChanged STREAMING]
   \<and> state (startNormal readyConn) = STREAMING
   \<and> state (startFast (\<lambda>ids rate. 1) readyConn) = STREAMING"
proof -
  have h: "isConnected readyConn \<and> \<not> isStreaming readyConn \<and> port readyConn
      \<and> sensorIds (parser readyConn) \<noteq> [] \<and> writesOk 5 readyConn"
    by code_simp
  from start_sequence [of readyConn "\<lambda>ids rate. 1"] h show ?thesis
    by blast
qed

section \<open>Starting without a sensor-id list\<close>

text \<open>
  C9. As stated the property fails: a start rejected for want of sensor ids has already
  stored the requested stream mode (here \<open>startNormal\<close> on a session whose stored mode
  was \<open>fast\<close>); a start on a disconnected session returns without a log line; and the
  earlier revision's \<open>startOnline\<close> does not look at the id list at all.
\<close>

theorem start_without_ids_counterexample:
  "sensorIds (parser (freshConn\<lparr>streamMode := ''fast''\<rparr>)) = []
   \<and> streamMode (freshConn\<lparr>streamMode := ''fast''\<rparr>) = ''fast''
   \<and> streamMode (startNormal (freshConn\<lparr>streamMode := ''fast''\<rparr>)) = ''normal''
   \<and> trace (startNormal new_conn) = []
   \<and> written (startOnline freshConn) = [buildCommand CMD_START_LOGIN]
   \<and> state (startOnline freshConn) = STREAMING"
  by code_simp

text \<open>
  C9, amended. A call of \<open>startNormal\<close>, \<open>startFast\<close> or the earlier \<open>startExperiment\<close>
  on a connected, not streaming session whose cached sensor-id list is empty is rejected
  with one error log line: no command bytes are transmitted and nothing of the session
  changes (connection state, port, parser, device status) except the stored stream mode,
  which is set to the requested mode. On a disconnected or streaming session the call
  changes nothing at all and logs nothing.
\<close>

theorem start_without_ids:
  "(isConnected c \<and> \<not> isStreaming c \<and> sensorIds (parser c) = [] \<longrightarrow>
      startNormal c
        = c\<lparr>streamMode := ''normal'', trace := trace c @ [Logged ''err'' NoSensors]\<rparr>
      \<and> startFast bm c
        = c\<lparr>streamMode := ''fast'', trace := trace c @ [Logged ''err'' NoSensors]\<rparr>
      \<and> startExperiment c
        = c\<lparr>streamMode := ''experiment'',
             trace := trace c @ [Logged ''err'' NoSensorsDetected]\<rparr>
      \<and> written (startNormal c) = written c
      \<and> written (startFast bm c) = written c
      \<and> written (startExperiment c) = written c)
   \<and> (\<not> isConnected c \<or> isStreaming c \<longrightarrow>
      startNormal c = c \<and> startFast bm c = c \<and> startExperiment c = c)"
  by (simp add: startNormal_def startFast_def startExperiment_def clog_def Let_def written_def)

theorem start_without_ids_witness:
  "startNormal freshConn
     = freshConn\<lparr>streamMode := ''normal'', trace := trace freshConn @ [Logged ''err'' NoSensors]\<rparr>
   \<and> startFast (\<lambda>ids rate. 1) freshConn
     = freshConn\<lparr>streamMode := ''fast'', trace := trace freshConn @ [Logged ''err'' NoSensors]\<rparr>
   \<and> written (startNormal freshConn) = written freshConn
   \<and> startNormal new_conn = new_conn"
proof -
  have h: "isConnected freshConn \<and> \<not> isStreaming freshConn \<and> sensorIds (parser freshConn) = []"
    by code_simp
  have g: "\<not> isConnected new_conn"
    by code_simp
  from start_without_ids [of freshConn "\<lambda>ids rate. 1"] start_without_ids [of new_conn "\<lambda>ids rate. 1"] h g
  show ?thesis by blast
qed

section \<open>Beacon disconnection and the active stream\<close>

lemma stopStreaming_state:
  "isStreaming c \<Longrightarrow> state (stopStreaming c) = CONNECTED"
  by (simp add: stopStreaming_def setState_def sendCommand_def sendRaw_frame Let_def)

lemma stopStreaming_parser:
  "parser (stopStreaming c) = parser c"
  by (simp add: stopStreaming_def setState_def sendCommand_def sendRaw_frame Let_def)

lemma written_append: "written (c\<lparr>trace := trace c @ es\<rparr>) = written c @ concat (map (\<lambda>e. case e of Wrote pkt \<Rightarrow> [pkt] | _ \<Rightarrow> []) es)"
  by (simp add: written_def)

lemma stopStreaming_written:
  assumes "isStreaming c" "port c" "writesOk (Suc 0) c"
  shows "written (stopStreaming c) = written c @ [buildCommand CMD_STOP_LOGIN]"
proof -
  have ic: "isConnected c" using assms(1) by (simp add: isStreaming_def isConnected_def)
  have "trace (stopStreaming c) = trace c @
      [Wrote (buildCommand CMD_STOP_LOGIN),
       Logged ''tx'' (Tx (buildCommand CMD_STOP_LOGIN) (Label ''StopLogin'')),
       StateChanged CONNECTED]"
    using assms(1) sendRaw_ok_trace [OF assms(2) ic assms(3)]
    by (simp add: stopStreaming_def setState_def sendCommand_def sendRaw_frame Let_def isStreaming_def)
  then show ?thesis by (simp add: written_def)
qed

lemma startNormal_state:
  "state (startNormal c) =
     (if isConnected c \<and> \<not> isStreaming c \<and> sensorIds (parser c) \<noteq> [] then STREAMING else state c)"
  by (simp add: startNormal_def Let_def resetPacketCount_def setState_def)

lemma startFast_state:
  "state (startFast bm c) =
     (if isConnected c \<and> \<not> isStreaming c \<and> sensorIds (parser c) \<noteq> [] then STREAMING else state c)"
  by (simp add: startFast_def Let_def resetPacketCount_def setState_def)

lemma handshake_frame:
  "state (handshake c) = state c" "parser (handshake c) = parser c"
  by (simp_all add: handshake_def sendCommand_def sendRaw_frame)

lemma startNormal_ids: "sensorIds (parser (startNormal c)) = sensorIds (parser c)"
  by (simp add: startNormal_def Let_def resetPacketCount_def setState_def sendCommand_def
        sendRaw_frame handshake_frame)

lemma startFast_ids: "sensorIds (parser (startFast bm c)) = sensorIds (parser c)"
  by (simp add: startFast_def Let_def resetPacketCount_def setState_def sendCommand_def
        sendRaw_frame handshake_frame)

lemma beacon_lost_auto:
  assumes "state (labdisc b) = STREAMING" "autoStarted b" "microbit b = BLE_CONNECTED"
  shows "microbit_setState BLE_DISCONNECTED b =
           (b\<lparr>microbit := BLE_DISCONNECTED, autoStarted := False,
              blog := blog b @ [(''info'', MicrobitState BLE_DISCONNECTED), (''info'', AutoStop)]\<rparr>,
            [StopStreaming])"
  using assms
  by (simp add: microbit_setState_def microbit_onStateChange_def checkAutoStream_def
        blogm_def isStreaming_def Let_def)

lemma beacon_lost_manual:
  assumes "state (labdisc b) = STREAMING" "\<not> autoStarted b" "microbit b \<noteq> BLE_DISCONNECTED"
  shows "microbit_setState BLE_DISCONNECTED b =
           (b\<lparr>microbit := BLE_DISCONNECTED,
              blog := blog b @ [(''info'', MicrobitState BLE_DISCONNECTED)]\<rparr>, [])"
  using assms
  by (simp add: microbit_setState_def microbit_onStateChange_def checkAutoStream_def
        blogm_def isStreaming_def Let_def)

lemma perform_stop:
  assumes "state (labdisc b) = STREAMING" "microbit b \<noteq> BLE_CONNECTED"
  shows "perform bm StopStreaming b =
           (b\<lparr>labdisc := stopStreaming (labdisc b),
              blog := blog b @ [(''info'', LabdiscState CONNECTED)]\<rparr>, [])"
  using assms stopStreaming_state [of "labdisc b"]
  by (simp add: perform_def withLabdisc_def labdisc_onStateChange_def checkAutoStream_def
        blogm_def isStreaming_def Let_def)

lemma auto_stop_run:
  assumes "state (labdisc b) = STREAMING" "autoStarted b" "microbit b = BLE_CONNECTED"
  shows "runCalls bm (Suc n) (microbit_setState BLE_DISCONNECTED b) =
           Some (b\<lparr>microbit := BLE_DISCONNECTED, autoStarted := False,
                   labdisc := stopStreaming (labdisc b),
                   blog := blog b @ [(''info'', MicrobitState BLE_DISCONNECTED), (''info'', AutoStop),
                                     (''info'', LabdiscState CONNECTED)]\<rparr>)"
proof -
  let ?b1 = "b\<lparr>microbit := BLE_DISCONNECTED, autoStarted := False,
              blog := blog b @ [(''info'', MicrobitState BLE_DISCONNECTED), (''info'', AutoStop)]\<rparr>"
  have p: "perform bm StopStreaming ?b1 =
           (?b1\<lparr>labdisc := stopStreaming (labdisc ?b1),
              blog := blog ?b1 @ [(''info'', LabdiscState CONNECTED)]\<rparr>, [])"
    by (rule perform_stop) (use assms in simp_all)
  show ?thesis
    unfolding beacon_lost_auto [OF assms]
    by (simp add: p)
qed

lemma startStreaming_settled:
  assumes "\<not> autoStarted b \<or> microbit b = BLE_CONNECTED"
  shows "startStreaming bm b =
     (let c = (if mode b = ''fast'' then startFast bm (labdisc b) else startNormal (labdisc b))
      in (b\<lparr>labdisc := c, uartSentCount := 0,
            blog := blog b @ (if state c \<noteq> state (labdisc b)
                              then [(''info'', LabdiscState STREAMING)] else [])\<rparr>, []))"
  using assms
  by (auto simp: startStreaming_def withLabdisc_def labdisc_onStateChange_def checkAutoStream_def
        blogm_def isStreaming_def Let_def startNormal_state startFast_state
        split: if_splits)

lemma startStreaming_state:
  assumes "\<not> autoStarted b \<or> microbit b = BLE_CONNECTED"
    "isConnected (labdisc b)" "\<not> isStreaming (labdisc b)" "sensorIds (parser (labdisc b)) \<noteq> []"
  shows "state (labdisc (fst (startStreaming bm b))) = STREAMING"
    and "autoStarted (fst (startStreaming bm b)) = autoStarted b"
    and "microbit (fst (startStreaming bm b)) = microbit b"
    and "snd (startStreaming bm b) = []"
  using assms(2-4)
  by (simp_all add: startStreaming_settled [OF assms(1)] Let_def startNormal_state startFast_state)

lemma manual_start:
  assumes "isConnected (labdisc b)" "\<not> isStreaming (labdisc b)"
    "sensorIds (parser (labdisc b)) \<noteq> []"
  shows "state (labdisc (fst (manualStartStream bm b))) = STREAMING"
    and "\<not> autoStarted (fst (manualStartStream bm b))"
    and "microbit (fst (manualStartStream bm b)) = microbit b"
    and "snd (manualStartStream bm b) = []"
proof -
  let ?b = "b\<lparr>autoStarted := False\<rparr>"
  have m: "manualStartStream bm b = startStreaming bm ?b"
    using assms by (simp add: manualStartStream_def)
  have pre: "\<not> autoStarted ?b \<or> microbit ?b = BLE_CONNECTED" "isConnected (labdisc ?b)"
    "\<not> isStreaming (labdisc ?b)" "sensorIds (parser (labdisc ?b)) \<noteq> []"
    using assms by simp_all
  show "state (labdisc (fst (manualStartStream bm b))) = STREAMING"
    unfolding m by (rule startStreaming_state(1) [OF pre])
  show "\<not> autoStarted (fst (manualStartStream bm b))"
    unfolding m using startStreaming_state(2) [OF pre] by simp
  show "microbit (fst (manualStartStream bm b)) = microbit b"
    unfolding m using startStreaming_state(3) [OF pre] by simp
  show "snd (manualStartStream bm b) = []"
    unfolding m by (rule startStreaming_state(4) [OF pre])
qed

lemma auto_start:
  assumes "state (labdisc b) = CONNECTED" "microbit b = BLE_CONNECTED"
    "sensorIds (parser (labdisc b)) \<noteq> []"
  shows "\<exists>b'. runCalls bm (Suc n) (checkAutoStream b) = Some b'
           \<and> state (labdisc b') = STREAMING \<and> autoStarted b' \<and> microbit b' = BLE_CONNECTED"
proof -
  let ?b1 = "(blogm ''info'' AutoStart b)\<lparr>autoStarted := True\<rparr>"
  have c: "checkAutoStream b = (?b1, [StartStreaming])"
    using assms by (simp add: checkAutoStream_def isStreaming_def Let_def blogm_def)
  have pre: "\<not> autoStarted ?b1 \<or> microbit ?b1 = BLE_CONNECTED" "isConnected (labdisc ?b1)"
    "\<not> isStreaming (labdisc ?b1)" "sensorIds (parser (labdisc ?b1)) \<noteq> []"
    using assms by (simp_all add: blogm_def isConnected_def isStreaming_def)
  note st = startStreaming_state [OF pre, of bm]
  obtain b2 ks where s: "startStreaming bm ?b1 = (b2, ks)" by (cases "startStreaming bm ?b1")
  with st have b2: "state (labdisc b2) = STREAMING" "autoStarted b2" "microbit b2 = BLE_CONNECTED"
    "ks = []"
    using assms(2) by (simp_all add: blogm_def)
  have "runCalls bm (Suc n) (checkAutoStream b) = Some b2"
    unfolding c using s b2(4) by (simp add: perform_def)
  with b2 show ?thesis by blast
qed

text \<open>
  C2. As stated the property fails on the earlier revision of the orchestrator, which keeps
  no record of how a stream was started: a stream started with the Stream button is
  stopped when the Beacon disconnects (stop-login is written and the session returns to
  Connected).
\<close>

theorem beacon_loss_counterexample:
  "state (labdisc (fst (handleManualStream_js pairedBridge))) = STREAMING
   \<and> snd (handleManualStream_js pairedBridge) = []
   \<and> map_option (\<lambda>b. (state (labdisc b), written (labdisc b)))
         (runCalls_js 1 (microbit_setState_js BLE_DISCONNECTED
            (fst (handleManualStream_js pairedBridge))))
       = Some (CONNECTED, [buildCommand CMD_START_LOGIN, buildCommand CMD_STOP_LOGIN])"
  by code_simp

text \<open>
  C2, amended. In the orchestrator that records \<open>_autoStarted\<close>: a stream begun by
  \<open>_checkAutoStream\<close> carries the flag and one begun by \<open>manualStartStream\<close> does not;
  when the Beacon disconnects while a flagged stream is active the orchestrator clears
  the flag and stops the Logger's stream (stop-login is written when the port accepts it,
  and the session returns to Connected); when the active stream is not flagged the
  disconnection leaves the session untouched and Streaming. The calls the handlers issue
  are all carried out with fuel 1, and with any larger fuel.
\<close>

theorem beacon_loss:
  "(state (labdisc b) = CONNECTED \<and> microbit b = BLE_CONNECTED
      \<and> sensorIds (parser (labdisc b)) \<noteq> [] \<longrightarrow>
      (\<exists>b'. runCalls bm (Suc n) (checkAutoStream b) = Some b'
         \<and> state (labdisc b') = STREAMING \<and> autoStarted b' \<and> microbit b' = BLE_CONNECTED))
   \<and> (isConnected (labdisc b) \<and> \<not> isStreaming (labdisc b)
      \<and> sensorIds (parser (labdisc b)) \<noteq> [] \<longrightarrow>
      state (labdisc (fst (manualStartStream bm b))) = STREAMING
      \<and> \<not> autoStarted (fst (manualStartStream bm b))
      \<and> snd (manualStartStream bm b) = [])
   \<and> (state (labdisc b) = STREAMING \<and> autoStarted b \<and> microbit b = BLE_CONNECTED \<longrightarrow>
      (\<exists>b'. runCalls bm (Suc n) (microbit_setState BLE_DISCONNECTED b) = Some b'
         \<and> labdisc b' = stopStreaming (labdisc b)
         \<and> state (labdisc b') = CONNECTED \<and> \<not> autoStarted b'
         \<and> microbit b' = BLE_DISCONNECTED
         \<and> (port (labdisc b) \<and> writesOk 1 (labdisc b) \<longrightarrow>
              written (labdisc b') = written (labdisc b) @ [buildCommand CMD_STOP_LOGIN])))
   \<and> (state (labdisc b) = STREAMING \<and> \<not> autoStarted b \<and> microbit b = BLE_CONNECTED \<longrightarrow>
      (\<exists>b'. runCalls bm n (microbit_setState BLE_DISCONNECTED b) = Some b'
         \<and> labdisc b' = labdisc b \<and> state (labdisc b') = STREAMING
         \<and> microbit b' = BLE_DISCONNECTED))"
proof -
  have a: "state (labdisc b) = CONNECTED \<and> microbit b = BLE_CONNECTED
      \<and> sensorIds (parser (labdisc b)) \<noteq> [] \<longrightarrow>
      (\<exists>b'. runCalls bm (Suc n) (checkAutoStream b) = Some b'
         \<and> state (labdisc b') = STREAMING \<and> autoStarted b' \<and> microbit b' = BLE_CONNECTED)"
    using auto_start [of b bm n] by blast
  have m: "isConnected (labdisc b) \<and> \<not> isStreaming (labdisc b)
      \<and> sensorIds (parser (labdisc b)) \<noteq> [] \<longrightarrow>
      state (labdisc (fst (manualStartStream bm b))) = STREAMING
      \<and> \<not> autoStarted (fst (manualStartStream bm b))
      \<and> snd (manualStartStream bm b) = []"
    using manual_start [of b bm] by blast
  have s: "state (labdisc b) = STREAMING \<and> autoStarted b \<and> microbit b = BLE_CONNECTED \<longrightarrow>
      (\<exists>b'. runCalls bm (Suc n) (microbit_setState BLE_DISCONNECTED b) = Some b'
         \<and> labdisc b' = stopStreaming (labdisc b)
         \<and> state (labdisc b') = CONNECTED \<and> \<not> autoStarted b'
         \<and> microbit b' = BLE_DISCONNECTED
         \<and> (port (labdisc b) \<and> writesOk 1 (labdisc b) \<longrightarrow>
              written (labdisc b') = written (labdisc b) @ [buildCommand CMD_STOP_LOGIN]))"
  proof (intro impI, elim conjE)
    assume h: "state (labdisc b) = STREAMING" "autoStarted b" "microbit b = BLE_CONNECTED"
    have st: "state (stopStreaming (labdisc b)) = CONNECTED"
      using h(1) by (simp add: stopStreaming_state isStreaming_def)
    have w: "port (labdisc b) \<and> writesOk 1 (labdisc b) \<longrightarrow>
        written (stopStreaming (labdisc b)) = written (labdisc b) @ [buildCommand CMD_STOP_LOGIN]"
      using h(1) stopStreaming_written [of "labdisc b"] by (simp add: isStreaming_def)
    show "\<exists>b'. runCalls bm (Suc n) (microbit_setState BLE_DISCONNECTED b) = Some b'
         \<and> labdisc b' = stopStreaming (labdisc b)
         \<and> state (labdisc b') = CONNECTED \<and> \<not> autoStarted b'
         \<and> microbit b' = BLE_DISCONNECTED
         \<and> (port (labdisc b) \<and> writesOk 1 (labdisc b) \<longrightarrow>
              written (labdisc b') = written (labdisc b) @ [buildCommand CMD_STOP_LOGIN])"
      unfolding auto_stop_run [OF h] using st w by simp
  qed
  have k: "state (labdisc b) = STREAMING \<and> \<not> autoStarted b \<and> microbit b = BLE_CONNECTED \<longrightarrow>
      (\<exists>b'. runCalls bm n (microbit_setState BLE_DISCONNECTED b) = Some b'
         \<and> labdisc b' = labdisc b \<and> state (labdisc b') = STREAMING
         \<and> microbit b' = BLE_DISCONNECTED)"
  proof (intro impI, elim conjE)
    assume h: "state (labdisc b) = STREAMING" "\<not> autoStarted b" "microbit b = BLE_CONNECTED"
    have "microbit b \<noteq> BLE_DISCONNECTED" using h(3) by simp
    from beacon_lost_manual [OF h(1,2) this] h(1)
    show "\<exists>b'. runCalls bm n (microbit_setState BLE_DISCONNECTED b) = Some b'
         \<and> labdisc b' = labdisc b \<and> state (labdisc b') = STREAMING
         \<and> microbit b' = BLE_DISCONNECTED"
      by simp
  qed
  from a m s k show ?thesis by blast
qed

theorem beacon_loss_witness:
  "(\<exists>b'. runCalls (\<lambda>ids rate. 1) (Suc 0)
            (microbit_setState BLE_DISCONNECTED (streamingBridge\<lparr>autoStarted := True\<rparr>)) = Some b'
         \<and> labdisc b' = stopStreaming (labdisc (streamingBridge\<lparr>autoStarted := True\<rparr>))
         \<and> state (labdisc b') = CONNECTED \<and> \<not> autoStarted b'
         \<and> microbit b' = BLE_DISCONNECTED
         \<and> written (labdisc b') = written (labdisc (streamingBridge\<lparr>autoStarted := True\<rparr>))
              @ [buildCommand CMD_STOP_LOGIN])
   \<and> (\<exists>b'. runCalls (\<lambda>ids rate. 1) 0 (microbit_setState BLE_DISCONNECTED streamingBridge) = Some b'
         \<and> labdisc b' = labdisc streamingBridge \<and> state (labdisc b') = STREAMING
         \<and> microbit b' = BLE_DISCONNECTED)"
proof -
  have h1: "state (labdisc (streamingBridge\<lparr>autoStarted := True\<rparr>)) = STREAMING
      \<and> autoStarted (streamingBridge\<lparr>autoStarted := True\<rparr>)
      \<and> microbit (streamingBridge\<lparr>autoStarted := True\<rparr>) = BLE_CONNECTED
      \<and> port (labdisc (streamingBridge\<lparr>autoStarted := True\<rparr>))
      \<and> writesOk 1 (labdisc (streamingBridge\<lparr>autoStarted := True\<rparr>))"
    by code_simp
  have h2: "state (labdisc streamingBridge) = STREAMING \<and> \<not> autoStarted streamingBridge
      \<and> microbit streamingBridge = BLE_CONNECTED"
    by code_simp
  from beacon_loss [of "streamingBridge\<lparr>autoStarted := True\<rparr>" "\<lambda>ids rate. 1" 0] h1
  have one: "\<exists>b'. runCalls (\<lambda>ids rate. 1) (Suc 0)
            (microbit_setState BLE_DISCONNECTED (streamingBridge\<lparr>autoStarted := True\<rparr>)) = Some b'
         \<and> labdisc b' = stopStreaming (labdisc (streamingBridge\<lparr>autoStarted := True\<rparr>))
         \<and> state (labdisc b') = CONNECTED \<and> \<not> autoStarted b'
         \<and> microbit b' = BLE_DISCONNECTED
         \<and> written (labdisc b') = written (labdisc (streamingBridge\<lparr>autoStarted := True\<rparr>))
              @ [buildCommand CMD_STOP_LOGIN]"
    by blast
  from beacon_loss [of streamingBridge "\<lambda>ids rate. 1" 0] h2
  have two: "\<exists>b'. runCalls (\<lambda>ids rate. 1) 0 (microbit_setState BLE_DISCONNECTED streamingBridge) = Some b'
         \<and> labdisc b' = labdisc streamingBridge \<and> state (labdisc b') = STREAMING
         \<and> microbit b' = BLE_DISCONNECTED"
    by blast
  from one two show ?thesis by blast
qed

section \<open>The framing loop on well-formed input\<close>

declare processLoop.simps [simp del]

lemma validPacket_shape:
  assumes "validPacket q"
  obtains t l body where "q = 0x2E # 0x69 # t # l # body"
proof -
  from assms have len: "4 \<le> length q" and hd: "take 2 q = [0x2E, 0x69]"
    by (simp_all add: validPacket_def RSP_HEADER_def)
  from len obtain a b t l body where q: "q = a # b # t # l # body"
    by (cases q; simp) (metis Suc_le_length_iff numeral_3_eq_3 Suc_le_mono length_Cons list.size(3) not_less_eq_eq neq_Nil_conv)
  with hd have "a = 0x2E" "b = 0x69" by simp_all
  with q that show thesis by blast
qed

lemma getPacketLength_append:
  "4 \<le> length q \<Longrightarrow> getPacketLength t (q @ rest) = getPacketLength t q"
  by (simp add: getPacketLength_def nth_append split: option.splits)

lemma handlePacket_buffer:
  "handlePacket t pkt (p\<lparr>buffer := b\<rparr>) = (handlePacket t pkt p)\<lparr>buffer := b\<rparr>"
  by (simp add: handlePacket_def parseSensorIds_def parseStatus_def parseOnlineData_def
        parseExperimentData_def emitData_def plog_def emit_def Let_def)

lemma handlePacket_buffer_same: "buffer (handlePacket t pkt p) = buffer p"
  by (simp add: handlePacket_def parseSensorIds_def parseStatus_def parseOnlineData_def
        parseExperimentData_def emitData_def plog_def emit_def Let_def)

lemma findHeader_append:
  "findHeader xs = None \<Longrightarrow> findHeader (xs @ 0x2E # 0x69 # ys) = Some (length xs)"
  by (induction xs rule: findHeader.induct) (auto split: if_splits)

lemma processLoop_valid_after_junk:
  assumes "validPacket q" "safety < 50" "buffer p = junk @ q @ rest" "findHeader junk = None"
  shows "processLoop safety p
           = processLoop (safety + 1) ((handlePacket (q ! 2) q p)\<lparr>buffer := rest\<rparr>)"
proof -
  from assms(1) obtain t l body where q: "q = 0x2E # 0x69 # t # l # body"
    by (rule validPacket_shape)
  from assms(1) have v: "getPacketLength (q ! 2) q = Some (length q)" "verifyChecksum q"
    "4 \<le> length q" "length q \<le> 800"
    by (simp_all add: validPacket_def)
  have g: "getPacketLength (q ! 2) (q @ rest) = Some (length q)"
    using getPacketLength_append [OF v(3)] v(1) by simp
  have h: "findHeader (buffer p) = Some (length junk)"
    using findHeader_append [OF assms(4), of "t # l # body @ rest"] assms(3) q by simp
  show ?thesis
    apply (subst processLoop.simps)
    using assms(2,3) v g q h
    apply (simp add: handlePacket_buffer Let_def)
    done
qed

lemma processLoop_valid_front:
  assumes "validPacket q" "safety < 50" "buffer p = q @ rest"
  shows "processLoop safety p
           = processLoop (safety + 1) ((handlePacket (q ! 2) q p)\<lparr>buffer := rest\<rparr>)"
  using processLoop_valid_after_junk [OF assms(1,2), of p "[]" rest] assms(3) by simp

lemma processLoop_short: "length (buffer p) < 4 \<Longrightarrow> processLoop safety p = p"
  by (subst processLoop.simps) simp

lemma processLoop_wait:
  assumes "validPacket q" "k < length q" "buffer p = take k q"
  shows "processLoop safety p = p"
proof (cases "k < 4")
  case True
  with assms(2,3) show ?thesis by (simp add: processLoop_short)
next
  case False
  from assms(1) obtain t l body where q: "q = 0x2E # 0x69 # t # l # body"
    by (rule validPacket_shape)
  from assms(1) have v: "getPacketLength (q ! 2) q = Some (length q)" "4 \<le> length q"
    "length q \<le> 800"
    by (simp_all add: validPacket_def)
  from False have "k = Suc (Suc (Suc (Suc (k - 4))))" by arith
  then obtain j where k: "k = Suc (Suc (Suc (Suc j)))" ..
  have g: "getPacketLength t (take k q) = Some (length q)"
    using v k q by (auto simp: getPacketLength_def split: option.splits if_splits)
  show ?thesis
    apply (subst processLoop.simps)
    using assms(2,3) g k q v(3)
    apply (simp add: Let_def)
    done
qed

lemma bulk_valid_packets:
  "(\<forall>q \<in> set ps. validPacket q) \<Longrightarrow> safety + length ps \<le> 50 \<Longrightarrow>
   processLoop safety (p\<lparr>buffer := concat ps\<rparr>)
     = (foldl (\<lambda>s q. handlePacket (q ! 2) q s) p ps)\<lparr>buffer := []\<rparr>"
proof (induction ps arbitrary: safety p)
  case Nil
  then show ?case by (simp add: processLoop_short)
next
  case (Cons q ps)
  from Cons.prems have v: "validPacket q" and s: "safety < 50" by auto
  have "processLoop safety (p\<lparr>buffer := concat (q # ps)\<rparr>)
        = processLoop (safety + 1)
            ((handlePacket (q ! 2) q (p\<lparr>buffer := concat (q # ps)\<rparr>))\<lparr>buffer := concat ps\<rparr>)"
    by (rule processLoop_valid_front [OF v s]) simp
  also have "\<dots> = processLoop (safety + 1) ((handlePacket (q ! 2) q p)\<lparr>buffer := concat ps\<rparr>)"
    by (simp add: handlePacket_buffer)
  also have "\<dots> = (foldl (\<lambda>s q. handlePacket (q ! 2) q s) (handlePacket (q ! 2) q p) ps)\<lparr>buffer := []\<rparr>"
    by (rule Cons.IH) (use Cons.prems in auto)
  finally show ?case by simp
qed

lemma feedEach_append: "feedEach (xs @ ys) p = feedEach ys (feedEach xs p)"
  by (induction xs arbitrary: p) simp_all

lemma feedEach_partial:
  "validPacket q \<Longrightarrow> pre @ bs = take k q \<Longrightarrow> k < length q \<Longrightarrow>
   feedEach bs (p\<lparr>buffer := pre\<rparr>) = p\<lparr>buffer := pre @ bs\<rparr>"
proof (induction bs arbitrary: pre)
  case Nil
  then show ?case by simp
next
  case (Cons b bs)
  have len: "length pre + 1 + length bs = k"
    using arg_cong [OF Cons.prems(2), of length] Cons.prems(3) by simp
  have "take (length pre + 1) (take k q) = take (length pre + 1) q"
    using len by (simp add: min_def)
  moreover have "take (length pre + 1) (pre @ b # bs) = pre @ [b]"
    by simp
  ultimately have pb: "pre @ [b] = take (length pre + 1) q"
    using Cons.prems(2) by simp
  have lt: "length pre + 1 < length q"
    using len Cons.prems(3) by simp
  have "feed [b] (p\<lparr>buffer := pre\<rparr>) = p\<lparr>buffer := pre @ [b]\<rparr>"
    unfolding feed_def processBuffer_def
    using processLoop_wait [OF Cons.prems(1) lt, of "p\<lparr>buffer := pre @ [b]\<rparr>" 0] pb by simp
  then show ?case
    using Cons.IH [of "pre @ [b]"] Cons.prems by simp
qed

lemma feedEach_valid_packet:
  assumes "validPacket q"
  shows "feedEach q (p\<lparr>buffer := []\<rparr>) = (handlePacket (q ! 2) q p)\<lparr>buffer := []\<rparr>"
proof -
  from assms have ne: "q \<noteq> []" by (auto simp: validPacket_def)
  then have split: "q = butlast q @ [last q]" by simp
  have bl: "[] @ butlast q = take (length q - 1) q"
    by (simp add: butlast_conv_take)
  have lt: "length q - 1 < length q" using ne by simp
  have pre: "feedEach (butlast q) (p\<lparr>buffer := []\<rparr>) = p\<lparr>buffer := butlast q\<rparr>"
    using feedEach_partial [OF assms bl lt, of p] by simp
  have "feedEach q (p\<lparr>buffer := []\<rparr>) = feedEach [last q] (p\<lparr>buffer := butlast q\<rparr>)"
    by (subst split) (simp only: feedEach_append pre)
  also have "\<dots> = processLoop 0 (p\<lparr>buffer := q\<rparr>)"
    using ne by (simp add: feed_def processBuffer_def)
  also have "\<dots> = processLoop (0 + 1) ((handlePacket (q ! 2) q (p\<lparr>buffer := q\<rparr>))\<lparr>buffer := []\<rparr>)"
    by (rule processLoop_valid_front [OF assms]) simp_all
  also have "\<dots> = (handlePacket (q ! 2) q p)\<lparr>buffer := []\<rparr>"
    by (simp add: handlePacket_buffer processLoop_short)
  finally show ?thesis .
qed

lemma bytewise_valid_packets:
  "(\<forall>q \<in> set ps. validPacket q) \<Longrightarrow>
   feedEach (concat ps) (p\<lparr>buffer := []\<rparr>)
     = (foldl (\<lambda>s q. handlePacket (q ! 2) q s) p ps)\<lparr>buffer := []\<rparr>"
proof (induction ps arbitrary: p)
  case Nil
  then show ?case by simp
next
  case (Cons q ps)
  then show ?case
    by (simp add: feedEach_append feedEach_valid_packet)
qed

lemma foldl_handle_buffer:
  "buffer (foldl (\<lambda>s q. handlePacket (q ! 2) q s) p ps) = buffer p"
  by (induction ps arbitrary: p) (simp_all add: handlePacket_buffer_same)

lemma chunking_valid_packets:
  assumes "\<forall>q \<in> set ps. validPacket q" "length ps \<le> 50" "buffer p = []"
  shows "feed (concat ps) p = foldl (\<lambda>s q. handlePacket (q ! 2) q s) p ps"
    and "feedEach (concat ps) p = foldl (\<lambda>s q. handlePacket (q ! 2) q s) p ps"
proof -
  let ?r = "foldl (\<lambda>s q. handlePacket (q ! 2) q s) p ps"
  have r: "?r\<lparr>buffer := []\<rparr> = ?r"
    using foldl_handle_buffer [of p ps] assms(3) by simp
  have p: "p\<lparr>buffer := []\<rparr> = p" using assms(3) by simp
  show "feed (concat ps) p = ?r"
    using bulk_valid_packets [OF assms(1), of 0 p] assms(2,3) r
    by (simp add: feed_def processBuffer_def)
  show "feedEach (concat ps) p = ?r"
    using bytewise_valid_packets [OF assms(1), of p] r p by simp
qed

lemma nth_le_sum_list: "i < length (xs :: nat list) \<Longrightarrow> xs ! i \<le> sum_list xs"
  by (induction xs arbitrary: i) (auto simp: nth_Cons split: nat.splits intro: trans_le_add2)

lemma corrupt_checksum_fails:
  assumes "verifyChecksum q" "i < length q" "v \<noteq> q ! i" "v < 256" "q ! i < 256"
  shows "\<not> verifyChecksum (q[i := v])"
proof
  assume bad: "verifyChecksum (q[i := v])"
  define S where "S = sum_list q"
  define a where "a = q ! i"
  have S0: "S mod 256 = 0" using assms(1) by (simp add: verifyChecksum_mod S_def)
  have aS: "a \<le> S" using nth_le_sum_list [OF assms(2)] by (simp add: S_def a_def)
  have upd: "sum_list (q[i := v]) = S + v - a"
    using sum_list_update [OF assms(2), of v] by (simp add: S_def a_def)
  from bad have T0: "(S + v - a) mod 256 = 0"
    by (simp add: verifyChecksum_mod upd)
  from S0 obtain m where m: "S = 256 * m" by (auto simp: mod_eq_0_iff_dvd)
  from T0 obtain n where n: "S + v - a = 256 * n" by (auto simp: mod_eq_0_iff_dvd)
  have va: "v \<noteq> a" "v < 256" "a < 256" using assms(3-5) by (simp_all add: a_def)
  from m n aS have "int v - int a = 256 * (int n - int m)" by simp
  moreover have "\<bar>int v - int a\<bar> < 256" using va by simp
  ultimately have "int n - int m = 0" by simp
  with \<open>int v - int a = 256 * (int n - int m)\<close> va(1) show False by simp
qed

lemma getPacketLength_corrupt:
  "4 \<le> length q \<Longrightarrow> payloadStart t \<le> i \<Longrightarrow>
   getPacketLength t (q[i := v] @ rest) = getPacketLength t q"
  by (auto simp: getPacketLength_def payloadStart_def nth_append split: option.splits)

lemma processLoop_bad_front:
  assumes "safety < 30" "buffer p = c @ rest" "findHeader (c @ rest) = Some 0"
    "4 \<le> length c" "length c \<le> 800"
    "getPacketLength (c ! 2) (c @ rest) = Some (length c)" "\<not> verifyChecksum c"
  shows "processLoop safety p
           = processLoop (safety + 1)
               ((plog ''warn'' (BadChecksumResync (c ! 2) (length c)) p)
                  \<lparr>buffer := drop 1 c @ rest\<rparr>)"
proof -
  have n2: "(c @ rest) ! 2 = c ! 2"
    using assms(4) by (simp add: nth_append)
  show ?thesis
    apply (subst processLoop.simps)
    using assms n2
    apply (simp add: Let_def plog_def emit_def)
    done
qed

lemma feed_corrupt_then_valid:
  assumes "validPacket q0" "i < length q0" "payloadStart (q0 ! 2) \<le> i"
    "v \<noteq> q0 ! i" "v < 256" "q0 ! i < 256"
    "findHeader (drop 1 (q0[i := v])) = None"
    "validPacket q1" "buffer p = []"
  shows "feed (q0[i := v] @ q1) p
           = handlePacket (q1 ! 2) q1 (plog ''warn'' (BadChecksumResync (q0 ! 2) (length q0)) p)"
proof -
  let ?c = "q0[i := v]"
  let ?p' = "plog ''warn'' (BadChecksumResync (q0 ! 2) (length q0)) p"
  from assms(1) obtain t l body where q0: "q0 = 0x2E # 0x69 # t # l # body"
    by (rule validPacket_shape)
  from assms(1) have v0: "getPacketLength (q0 ! 2) q0 = Some (length q0)" "verifyChecksum q0"
    "4 \<le> length q0" "length q0 \<le> 800"
    by (simp_all add: validPacket_def)
  have ps: "3 \<le> payloadStart (q0 ! 2)"
    by (simp add: payloadStart_def split: option.splits)
  with assms(3) have i3: "3 \<le> i" by simp
  then have "i = Suc (Suc (Suc (i - 3)))" by arith
  then obtain j where i: "i = Suc (Suc (Suc j))" ..
  have c: "?c = 0x2E # 0x69 # t # (l # body)[j := v]"
    using q0 i by simp
  have c2: "?c ! 2 = q0 ! 2" using i3 by simp
  have lc: "length ?c = length q0" by simp
  have g: "getPacketLength (?c ! 2) (?c @ q1) = Some (length ?c)"
    using getPacketLength_corrupt [OF v0(3) assms(3), of v q1] v0(1) c2 by simp
  have nv: "\<not> verifyChecksum ?c"
    by (rule corrupt_checksum_fails [OF v0(2) assms(2,4,5,6)])
  have fh: "findHeader (?c @ q1) = Some 0"
    by (subst c) simp
  have first: "processLoop 0 (p\<lparr>buffer := ?c @ q1\<rparr>)
      = processLoop (0 + 1)
          ((plog ''warn'' (BadChecksumResync (?c ! 2) (length ?c)) (p\<lparr>buffer := ?c @ q1\<rparr>))
             \<lparr>buffer := drop 1 ?c @ q1\<rparr>)"
    by (rule processLoop_bad_front [OF _ _ fh _ _ g nv]) (use v0 in \<open>simp_all del: list_update.simps\<close>)
  have first': "processLoop 0 (p\<lparr>buffer := ?c @ q1\<rparr>)
      = processLoop 1 (?p'\<lparr>buffer := drop 1 ?c @ q1\<rparr>)"
    unfolding first c2 lc by (simp add: plog_def emit_def)
  have second: "processLoop 1 (?p'\<lparr>buffer := drop 1 ?c @ q1\<rparr>)
      = processLoop (1 + 1) ((handlePacket (q1 ! 2) q1 (?p'\<lparr>buffer := drop 1 ?c @ q1\<rparr>))\<lparr>buffer := []\<rparr>)"
    by (rule processLoop_valid_after_junk [OF assms(8) _ _ assms(7)]) simp_all
  have third: "\<dots> = (handlePacket (q1 ! 2) q1 ?p')\<lparr>buffer := []\<rparr>"
    by (simp add: handlePacket_buffer processLoop_short)
  have "buffer (handlePacket (q1 ! 2) q1 ?p') = []"
    using assms(9) by (simp add: handlePacket_buffer_same plog_def emit_def)
  then have fin: "(handlePacket (q1 ! 2) q1 ?p')\<lparr>buffer := []\<rparr> = handlePacket (q1 ! 2) q1 ?p'"
    by simp
  show ?thesis
    unfolding feed_def processBuffer_def
    using first' second third fin assms(9) by simp
qed

lemma handlePacket_emitted_prefix:
  "take (length (emitted p)) (emitted (handlePacket t pkt p)) = emitted p"
  by (simp add: handlePacket_def parseSensorIds_def parseStatus_def parseOnlineData_def
        parseExperimentData_def emitData_def plog_def emit_def Let_def)

section \<open>Framer resync after a corrupted packet\<close>

text \<open>
  C6. As stated the property fails: when the corrupted interior byte is the declared-length
  byte of a variable-length packet (here index 3 of an online-data packet, 7 changed to
  200), the framer waits for 200 bytes; it emits no log line, and the valid sensor-id
  packet appended right after is not parsed.
\<close>

theorem corrupted_length_byte_counterexample:
  "validPacket onlinePacket \<and> validPacket idsPacket
   \<and> emitted (feed (onlinePacket[3 := 200] @ idsPacket) new_parser) = []
   \<and> buffer (feed (onlinePacket[3 := 200] @ idsPacket) new_parser)
       = onlinePacket[3 := 200] @ idsPacket"
  by code_simp

text \<open>
  C6, amended. Take a valid packet and replace one byte after the bytes the framer reads
  to find the packet (index 3 or more for a fixed-length type, 4 or more for a
  variable-length type; the checksum byte included) by a different byte value, such that
  no response header occurs after the first byte of the corrupted packet. Fed to a framer
  with an empty buffer, with a valid packet appended right after, it makes the framer emit
  the bad-checksum warning and no other event for the corrupted packet, and then exactly
  what the appended packet produces when fed alone.
\<close>

theorem corrupted_packet_resync:
  "validPacket q0 \<and> i < length q0 \<and> payloadStart (q0 ! 2) \<le> i
   \<and> v \<noteq> q0 ! i \<and> v < 256 \<and> q0 ! i < 256
   \<and> findHeader (drop 1 (q0[i := v])) = None
   \<and> validPacket q1 \<and> buffer p = []
   \<longrightarrow>
     feed (q0[i := v] @ q1) p
       = handlePacket (q1 ! 2) q1 (plog ''warn'' (BadChecksumResync (q0 ! 2) (length q0)) p)
     \<and> feed (q0[i := v] @ q1) p
       = feed q1 (plog ''warn'' (BadChecksumResync (q0 ! 2) (length q0)) p)
     \<and> take (length (emitted p) + 1) (emitted (feed (q0[i := v] @ q1) p))
       = emitted p @ [LogEvent ''warn'' (BadChecksumResync (q0 ! 2) (length q0))]"
proof (intro impI, elim conjE)
  assume h: "validPacket q0" "i < length q0" "payloadStart (q0 ! 2) \<le> i"
    "v \<noteq> q0 ! i" "v < 256" "q0 ! i < 256"
    "findHeader (drop 1 (q0[i := v])) = None" "validPacket q1" "buffer p = []"
  let ?p' = "plog ''warn'' (BadChecksumResync (q0 ! 2) (length q0)) p"
  have a: "feed (q0[i := v] @ q1) p = handlePacket (q1 ! 2) q1 ?p'"
    by (rule feed_corrupt_then_valid [OF h])
  have bp: "buffer ?p' = []" using h(9) by (simp add: plog_def emit_def)
  have b: "feed q1 ?p' = handlePacket (q1 ! 2) q1 ?p'"
    using chunking_valid_packets(1) [of "[q1]" ?p'] h(8) bp by simp
  have e: "emitted ?p' = emitted p @ [LogEvent ''warn'' (BadChecksumResync (q0 ! 2) (length q0))]"
    by (simp add: plog_def emit_def)
  have c: "take (length (emitted p) + 1) (emitted (handlePacket (q1 ! 2) q1 ?p'))
      = emitted p @ [LogEvent ''warn'' (BadChecksumResync (q0 ! 2) (length q0))]"
    using handlePacket_emitted_prefix [of ?p' "q1 ! 2" q1] by (simp add: e)
  show "feed (q0[i := v] @ q1) p = handlePacket (q1 ! 2) q1 ?p'
     \<and> feed (q0[i := v] @ q1) p = feed q1 ?p'
     \<and> take (length (emitted p) + 1) (emitted (feed (q0[i := v] @ q1) p))
       = emitted p @ [LogEvent ''warn'' (BadChecksumResync (q0 ! 2) (length q0))]"
    using a b c by simp
qed

theorem corrupted_packet_resync_witness:
  "feed (onlinePacket[4 := 200] @ idsPacket) new_parser
     = handlePacket (idsPacket ! 2) idsPacket
         (plog ''warn'' (BadChecksumResync (onlinePacket ! 2) (length onlinePacket)) new_parser)
   \<and> take (length (emitted new_parser) + 1)
         (emitted (feed (onlinePacket[4 := 200] @ idsPacket) new_parser))
       = emitted new_parser
           @ [LogEvent ''warn'' (BadChecksumResync (onlinePacket ! 2) (length onlinePacket))]"
proof -
  have h: "validPacket onlinePacket \<and> 4 < length onlinePacket
      \<and> payloadStart (onlinePacket ! 2) \<le> 4
      \<and> 200 \<noteq> onlinePacket ! 4 \<and> (200 :: nat) < 256 \<and> onlinePacket ! 4 < 256
      \<and> findHeader (drop 1 (onlinePacket[4 := 200])) = None
      \<and> validPacket idsPacket \<and> buffer new_parser = []"
    by code_simp
  from corrupted_packet_resync [of onlinePacket 4 200 idsPacket new_parser] h
  show ?thesis by blast
qed

section \<open>Chunked and bulk feeding\<close>

text \<open>
  C7. As stated the property fails: one \<open>feed\<close> call runs at most 50 iterations of the
  framing loop. On a stream of fifty stray response headers followed by a valid sensor-id
  packet the bulk call spends its iterations on the stray headers and emits no event,
  while feeding the same bytes one at a time emits the sensor-id event.
\<close>

theorem chunking_counterexample:
  "packetEvents (emitted (feed (junkHeaders @ idsPacket) new_parser)) = []
   \<and> packetEvents (emitted (feedEach (junkHeaders @ idsPacket) new_parser))
       = [SensorIdsEvent [30]]"
  by code_simp

text \<open>
  C7, amended. For every byte stream that is the concatenation of at most 50 valid
  packets, fed to a framer whose buffer is empty, feeding it one byte at a time and
  feeding it in a single call leave the framer in the same state, having emitted the same
  sequence of events: each packet is dispatched once, in order.
\<close>

theorem chunking_equivalence:
  "(\<forall>q \<in> set ps. validPacket q) \<and> length ps \<le> 50 \<and> buffer p = []
   \<longrightarrow>
     feedEach (concat ps) p = feed (concat ps) p
     \<and> emitted (feedEach (concat ps) p) = emitted (feed (concat ps) p)
     \<and> feed (concat ps) p = foldl (\<lambda>s q. handlePacket (q ! 2) q s) p ps"
  using chunking_valid_packets [of ps p] by simp

theorem chunking_equivalence_witness:
  "feedEach (concat [idsPacket, onlinePacket]) new_parser
     = feed (concat [idsPacket, onlinePacket]) new_parser
   \<and> emitted (feedEach (concat [idsPacket, onlinePacket]) new_parser)
     = emitted (feed (concat [idsPacket, onlinePacket]) new_parser)"
proof -
  have h: "(\<forall>q \<in> set [idsPacket, onlinePacket]. validPacket q)
      \<and> length [idsPacket, onlinePacket] \<le> 50 \<and> buffer new_parser = []"
    by code_simp
  from chunking_equivalence [of "[idsPacket, onlinePacket]" new_parser] h
  show ?thesis by blast
qed

end
